theory Spec2Isabelle
  imports Main "HOL-Library.AList"
begin

section \<open>Strings, bytes and paths\<close>

text \<open>
  A shallow embedding of \<^verbatim>\<open>build_dc_fidb.py\<close>. Python strings and byte strings are
  both \<^typ>\<open>string\<close> (a list of 8-bit characters); \<^verbatim>\<open>str.lower()\<close> is modelled on
  the ASCII letters. A \<^verbatim>\<open>pathlib.Path\<close> is the list of its \<^verbatim>\<open>parts\<close>; the script is
  written for Windows (\<^verbatim>\<open>.exe\<close> tools, \<^verbatim>\<open>st_file_attributes\<close>), so paths are printed
  with the backslash.
\<close>

type_synonym bytes = string
type_synonym path = "string list"

definition lower_char :: "char \<Rightarrow> char" where
  "lower_char c =
     (case map_of (zip ''ABCDEFGHIJKLMNOPQRSTUVWXYZ'' ''abcdefghijklmnopqrstuvwxyz'') c of
        Some d \<Rightarrow> d
      | None \<Rightarrow> c)"

definition lower :: "string \<Rightarrow> string" where
  "lower s = map lower_char s"

text \<open>\<^verbatim>\<open>s.endswith(x)\<close>.\<close>

definition endswith :: "string \<Rightarrow> string \<Rightarrow> bool" where
  "endswith s x = (length x \<le> length s \<and> drop (length s - length x) s = x)"

text \<open>\<^verbatim>\<open>x in s\<close> on strings: \<open>x\<close> occurs in \<open>s\<close> as a substring.\<close>

fun str_in :: "string \<Rightarrow> string \<Rightarrow> bool" where
  "str_in x [] = (x = [])"
| "str_in x (c # s) = (take (length x) (c # s) = x \<or> str_in x s)"

definition backslash :: char where
  "backslash = CHR 0x5C"

text \<open>
  The first part of an absolute path is its anchor (a drive with its root, or the root), the only part
  that ends in a separator.
\<close>

definition is_anchor :: "string \<Rightarrow> bool" where
  "is_anchor s = (s \<noteq> [] \<and> (last s = backslash \<or> last s = CHR ''/''))"

definition is_absolute :: "path \<Rightarrow> bool" where
  "is_absolute p = (case p of [] \<Rightarrow> False | a # _ \<Rightarrow> is_anchor a)"

fun join_sep :: "string list \<Rightarrow> string" where
  "join_sep [] = []"
| "join_sep [s] = s"
| "join_sep (s # t # ss) = s @ [backslash] @ join_sep (t # ss)"

text \<open>\<^verbatim>\<open>str(path)\<close>.\<close>

definition path_str :: "path \<Rightarrow> string" where
  "path_str p =
     (case p of
        [] \<Rightarrow> ''.''
      | a # ps \<Rightarrow> if is_anchor a then a @ join_sep ps else join_sep (a # ps))"

text \<open>\<^verbatim>\<open>path.name\<close>: the last part, empty for the empty path and for a bare anchor.\<close>

definition name :: "path \<Rightarrow> string" where
  "name p = (if p = [] then [] else if is_anchor (last p) then [] else last p)"

text \<open>\<^verbatim>\<open>s.rfind('.')\<close>, as an option (\<open>None\<close> is Python's \<open>-1\<close>).\<close>

fun rfind_dot :: "string \<Rightarrow> nat option" where
  "rfind_dot [] = None"
| "rfind_dot (c # s) =
     (case rfind_dot s of
        Some i \<Rightarrow> Some (Suc i)
      | None \<Rightarrow> if c = CHR ''.'' then Some 0 else None)"

text \<open>
  \<^verbatim>\<open>path.suffix\<close>: the name from its last dot on, when that dot is neither the first
  nor the last character of the name (pathlib up to Python 3.13).
\<close>

definition suffix_of :: "path \<Rightarrow> string" where
  "suffix_of p =
     (let n = name p in
      case rfind_dot n of
        Some i \<Rightarrow> if 0 < i \<and> i < length n - 1 then drop i n else []
      | None \<Rightarrow> [])"

text \<open>\<^verbatim>\<open>a / b\<close>: an absolute right operand replaces the left one.\<close>

definition pjoin :: "path \<Rightarrow> path \<Rightarrow> path" where
  "pjoin a b = (if is_absolute b then b else a @ b)"

text \<open>\<^verbatim>\<open>d / s\<close> for a string \<open>s\<close> without separators; an empty string adds nothing.\<close>

definition child :: "path \<Rightarrow> string \<Rightarrow> path" where
  "child d s = (if s = [] then d else if is_anchor s then [s] else d @ [s])"

text \<open>\<^verbatim>\<open>path.with_suffix(ext)\<close>; it raises \<^verbatim>\<open>ValueError\<close> on a path without a name.\<close>

definition with_suffix :: "path \<Rightarrow> string \<Rightarrow> path option" where
  "with_suffix p ext =
     (let n = name p in
      if n = [] then None
      else Some (butlast p @ [take (length n - length (suffix_of p)) n @ ext]))"

section \<open>The world: file system, output, processes, tool table\<close>

datatype error =
    FileNotFoundError
  | FileExistsError
  | PermissionError
  | NotADirectoryError
  | ShutilError
  | ValueError
  | IndexError
  | KeyError
  | CalledProcessError int
  | SystemExit int

text \<open>\<^verbatim>\<open>IOError\<close> is \<^verbatim>\<open>OSError\<close>; \<^verbatim>\<open>shutil.Error\<close> is a subclass of it.\<close>

fun is_IOError :: "error \<Rightarrow> bool" where
  "is_IOError FileNotFoundError = True"
| "is_IOError FileExistsError = True"
| "is_IOError PermissionError = True"
| "is_IOError NotADirectoryError = True"
| "is_IOError ShutilError = True"
| "is_IOError _ = False"

text \<open>\<^verbatim>\<open>except Exception\<close> catches everything but \<^verbatim>\<open>SystemExit\<close>.\<close>

fun is_Exception :: "error \<Rightarrow> bool" where
  "is_Exception (SystemExit _) = False"
| "is_Exception _ = True"

text \<open>A file has its content and the Windows read-only attribute.\<close>

datatype node = Dir | File bytes bool

text \<open>One entry of the \<^verbatim>\<open>tools\<close> dictionary; the key \<^verbatim>\<open>"exists"\<close> may be absent.\<close>

record tool =
  rel :: bool
  tpath :: path
  texists :: "bool option"

text \<open>\<^verbatim>\<open>subprocess.run\<close> and \<^verbatim>\<open>subprocess.check_call\<close>, with argv and cwd.\<close>

datatype call = Run "string list" path | CheckCall "string list" path

text \<open>
  The \<^verbatim>\<open>tools\<close> dictionary has the three keys \<^verbatim>\<open>"ar"\<close>, \<^verbatim>\<open>"libsplit"\<close> and
  \<^verbatim>\<open>"elfcnv"\<close>, in this order; only its values are ever assigned.
\<close>

record tool_table =
  ar_tool :: tool
  libsplit_tool :: tool
  elfcnv_tool :: tool

definition tools_init :: tool_table where
  "tools_init =
     \<lparr>ar_tool = \<lparr>rel = True, tpath = [''Utl'', ''Dev'', ''Gnu'', ''Bin'', ''ar.exe''],
                  texists = None\<rparr>,
      libsplit_tool = \<lparr>rel = True, tpath = [''Utl'', ''Dev'', ''Hitachi'', ''libsplit.exe''],
                        texists = None\<rparr>,
      elfcnv_tool = \<lparr>rel = True, tpath = [''Utl'', ''Dev'', ''Hitachi'', ''elfcnv.exe''],
                      texists = None\<rparr>\<rparr>"

definition tool_names :: "string list" where
  "tool_names = [''ar'', ''libsplit'', ''elfcnv'']"

definition tools_get :: "tool_table \<Rightarrow> string \<Rightarrow> tool option" where
  "tools_get t k =
     (if k = ''ar'' then Some (ar_tool t)
      else if k = ''libsplit'' then Some (libsplit_tool t)
      else if k = ''elfcnv'' then Some (elfcnv_tool t)
      else None)"

definition tools_set :: "tool_table \<Rightarrow> string \<Rightarrow> tool \<Rightarrow> tool_table" where
  "tools_set t k v =
     (if k = ''ar'' then t\<lparr>ar_tool := v\<rparr>
      else if k = ''libsplit'' then t\<lparr>libsplit_tool := v\<rparr>
      else if k = ''elfcnv'' then t\<lparr>elfcnv_tool := v\<rparr>
      else t)"

record world =
  fs :: "(path \<times> node) list"
  cwd :: path
  out :: "string list"
  procs :: "call list"
  tools :: tool_table

text \<open>File-system keys are absolute; a relative path is taken from the working directory.\<close>

definition full :: "world \<Rightarrow> path \<Rightarrow> path" where
  "full w p = (if is_absolute p then p else cwd w @ p)"

definition node_at :: "world \<Rightarrow> path \<Rightarrow> node option" where
  "node_at w p = map_of (fs w) (full w p)"

definition exists :: "world \<Rightarrow> path \<Rightarrow> bool" where
  "exists w p = (node_at w p \<noteq> None)"

definition is_file :: "world \<Rightarrow> path \<Rightarrow> bool" where
  "is_file w p = (case node_at w p of Some (File _ _) \<Rightarrow> True | _ \<Rightarrow> False)"

definition is_dir :: "world \<Rightarrow> path \<Rightarrow> bool" where
  "is_dir w p = (node_at w p = Some Dir)"

text \<open>
  \<^verbatim>\<open>open(path, "rb")\<close> followed by reading: the whole content, or the error raised.
  A path with an embedded NUL character is refused with \<^verbatim>\<open>ValueError\<close>, which is not
  an \<^verbatim>\<open>IOError\<close>, before the file system is asked.
\<close>

definition has_nul :: "path \<Rightarrow> bool" where
  "has_nul p = list_ex (\<lambda>s. CHR 0x00 \<in> set s) p"

definition open_rb :: "world \<Rightarrow> path \<Rightarrow> error + bytes" where
  "open_rb w p =
     (if has_nul p then Inl ValueError
      else case node_at w p of
             None \<Rightarrow> Inl FileNotFoundError
           | Some Dir \<Rightarrow> Inl PermissionError
           | Some (File bs _) \<Rightarrow> Inr bs)"

section \<open>Filters and constants\<close>

definition VALID_EXTS :: "string list" where
  "VALID_EXTS = [''.o'', ''.a'', ''.elf'', ''.obj'', ''.lib'']"

definition IGNORE_DIRS :: "string list" where
  "IGNORE_DIRS = [''demo'', ''sample'', ''vmutool'']"

definition IGNORE_FILES :: "string list" where
  "IGNORE_FILES = [''copying.lib'']"

definition ar_magic :: bytes where
  "ar_magic = ''!<arch>''"

definition elf_magic :: bytes where
  "elf_magic = [CHR 0x7F, CHR ''E'', CHR ''L'', CHR ''F'']"

text \<open>\<^verbatim>\<open>is_ar_archive\<close> (lines 71-78): the \<^verbatim>\<open>open\<close> is not guarded, its error propagates.\<close>

definition is_ar_archive :: "world \<Rightarrow> path \<Rightarrow> error + bool" where
  "is_ar_archive w p =
     (if endswith (lower (path_str p)) ''.a'' \<or> endswith (lower (path_str p)) ''.elf.lib''
      then Inr True
      else if endswith (lower (path_str p)) ''.lib''
      then (case open_rb w p of
              Inl e \<Rightarrow> Inl e
            | Inr bs \<Rightarrow> Inr (take 7 bs = ar_magic))
      else Inr False)"

text \<open>\<^verbatim>\<open>is_elf\<close> (lines 81-86): \<^verbatim>\<open>except IOError: return False\<close>.\<close>

definition is_elf :: "world \<Rightarrow> path \<Rightarrow> error + bool" where
  "is_elf w p =
     (case open_rb w p of
        Inr bs \<Rightarrow> Inr (take 4 bs = elf_magic)
      | Inl e \<Rightarrow> if is_IOError e then Inr False else Inl e)"

section \<open>Compiler and variant classification\<close>

text \<open>\<^verbatim>\<open>detect_compiler\<close> (lines 93-113); \<open>None\<close> is Python's \<^verbatim>\<open>None\<close>.\<close>

definition detect_compiler :: "world \<Rightarrow> path \<Rightarrow> error + string option" where
  "detect_compiler w p =
     (let parts = map lower p in
      if list_ex (\<lambda>m. m \<in> set parts) [''gnu'', ''sh-elf''] then Inr (Some ''gcc'')
      else if list_ex (\<lambda>m. m \<in> set parts) [''codewarrior'', ''mwerks'', ''mw'']
      then Inr (Some ''shc'')
      else if lower (suffix_of p) \<in> set [''.a'', ''.o'', ''.elf''] then Inr (Some ''gcc'')
      else (case is_ar_archive w p of
              Inl e \<Rightarrow> Inl e
            | Inr True \<Rightarrow> Inr (Some ''gcc'')
            | Inr False \<Rightarrow>
                if lower (suffix_of p) \<in> set [''.lib'', ''.obj''] then Inr (Some ''shc'')
                else Inr None))"

text \<open>\<^verbatim>\<open>detect_variant\<close> (lines 116-129): the first token of the tuple found among the parts.\<close>

definition detect_variant :: "path \<Rightarrow> string" where
  "detect_variant p =
     (let parts = map lower p in
      case filter (\<lambda>token. token \<in> set parts)
             [''m4-single-only'', ''m4-single'', ''mnomacsave'', ''m4'', ''ml''] of
        [] \<Rightarrow> ''default''
      | token # _ \<Rightarrow> token)"

text \<open>
  The choice of the handling mode in \<^verbatim>\<open>build_fidb\<close> (lines 282-284):
  \<^verbatim>\<open>tool = "copy"; if is_ar_archive(file): tool = "ar"; elif file.suffix.lower() == ".lib": tool = "libsplit"\<close>.
\<close>

definition choose_tool :: "world \<Rightarrow> path \<Rightarrow> error + string" where
  "choose_tool w file =
     (case is_ar_archive w file of
        Inl e \<Rightarrow> Inl e
      | Inr True \<Rightarrow> Inr ''ar''
      | Inr False \<Rightarrow> if lower (suffix_of file) = ''.lib'' then Inr ''libsplit'' else Inr ''copy'')"

section \<open>Configuration, effects and the file-system operations\<close>

text \<open>
  What the script does not determine is a parameter of the model: the constant
  \<^verbatim>\<open>DEBUG\<close>, the Ghidra directory, what an external program does (\<open>exec argv dir files\<close>
  is the exception of the launch or the exit status, with the files left behind), the
  name \<^verbatim>\<open>tempfile\<close> picks, and the order in which a Python set is iterated.
\<close>

record env =
  DEBUG :: bool
  GHIDRA_HOME :: path
  exec :: "string list \<Rightarrow> path \<Rightarrow> (path \<times> node) list \<Rightarrow> (error + int) \<times> (path \<times> node) list"
  mkdtemp :: "(path \<times> node) list \<Rightarrow> path"
  set_list :: "string set \<Rightarrow> string list"

text \<open>A statement runs in a world and leaves a world, with a value or a raised exception.\<close>

type_synonym 'a io = "world \<Rightarrow> (error + 'a) \<times> world"

definition ret :: "'a \<Rightarrow> 'a io" where
  "ret x w = (Inr x, w)"

definition raise :: "error \<Rightarrow> 'a io" where
  "raise e w = (Inl e, w)"

definition bnd :: "'a io \<Rightarrow> ('a \<Rightarrow> 'b io) \<Rightarrow> 'b io" where
  "bnd m f w = (case m w of (Inl e, w') \<Rightarrow> (Inl e, w') | (Inr x, w') \<Rightarrow> f x w')"

definition get :: "world io" where
  "get w = (Inr w, w)"

definition lift :: "(world \<Rightarrow> error + 'a) \<Rightarrow> 'a io" where
  "lift f w = (f w, w)"

definition print :: "string \<Rightarrow> unit io" where
  "print s w = (Inr (), w\<lparr>out := out w @ [s]\<rparr>)"

text \<open>\<^verbatim>\<open>try: m  except Exception as e: h\<close>.\<close>

definition try_except :: "'a io \<Rightarrow> (error \<Rightarrow> 'a io) \<Rightarrow> 'a io" where
  "try_except m h w =
     (case m w of
        (Inl e, w') \<Rightarrow> if is_Exception e then h e w' else (Inl e, w')
      | (Inr x, w') \<Rightarrow> (Inr x, w'))"

text \<open>A \<^verbatim>\<open>for\<close> loop over a list, without and with a value carried along.\<close>

fun for_each :: "('a \<Rightarrow> unit io) \<Rightarrow> 'a list \<Rightarrow> unit io" where
  "for_each f [] w = (Inr (), w)"
| "for_each f (x # xs) w =
     (case f x w of (Inl e, w') \<Rightarrow> (Inl e, w') | (Inr _, w') \<Rightarrow> for_each f xs w')"

fun fold_io :: "('a \<Rightarrow> 's \<Rightarrow> 's io) \<Rightarrow> 'a list \<Rightarrow> 's \<Rightarrow> 's io" where
  "fold_io f [] s w = (Inr s, w)"
| "fold_io f (x # xs) s w =
     (case f x s w of (Inl e, w') \<Rightarrow> (Inl e, w') | (Inr s', w') \<Rightarrow> fold_io f xs s' w')"

text \<open>The text of an exception in a message (\<^verbatim>\<open>{e}\<close>), reduced to the class name.\<close>

fun error_text :: "error \<Rightarrow> string" where
  "error_text FileNotFoundError = ''FileNotFoundError''"
| "error_text FileExistsError = ''FileExistsError''"
| "error_text PermissionError = ''PermissionError''"
| "error_text NotADirectoryError = ''NotADirectoryError''"
| "error_text ShutilError = ''shutil.Error''"
| "error_text ValueError = ''ValueError''"
| "error_text IndexError = ''IndexError''"
| "error_text KeyError = ''KeyError''"
| "error_text (CalledProcessError _) = ''CalledProcessError''"
| "error_text (SystemExit _) = ''SystemExit''"

definition is_prefix :: "path \<Rightarrow> path \<Rightarrow> bool" where
  "is_prefix a p = (take (length a) p = a)"

text \<open>A directory entry has a name: not empty, not ending in a separator.\<close>

definition valid_name :: "string \<Rightarrow> bool" where
  "valid_name s = (s \<noteq> [] \<and> \<not> is_anchor s)"

text \<open>\<^verbatim>\<open>d.iterdir()\<close>, listed when the loop starts.\<close>

definition iterdir :: "world \<Rightarrow> path \<Rightarrow> error + path list" where
  "iterdir w d =
     (case node_at w d of
        None \<Rightarrow> Inl FileNotFoundError
      | Some (File _ _) \<Rightarrow> Inl NotADirectoryError
      | Some Dir \<Rightarrow>
          Inr [p \<leftarrow> map fst (fs w). p \<noteq> [] \<and> butlast p = full w d \<and> valid_name (last p)])"

text \<open>\<^verbatim>\<open>root.rglob("*")\<close>: everything below the root, listed when the loop starts.\<close>

definition rglob :: "world \<Rightarrow> path \<Rightarrow> path list" where
  "rglob w root = [p \<leftarrow> map fst (fs w). is_prefix (full w root) p \<and> p \<noteq> full w root]"

definition fs_put :: "path \<Rightarrow> node \<Rightarrow> world \<Rightarrow> world" where
  "fs_put k n w = w\<lparr>fs := AList.update k n (fs w)\<rparr>"

text \<open>
  \<^verbatim>\<open>shutil.copy2(src, dst)\<close>: the content and the attributes of a regular file, into
  \<open>dst\<close> when it is a directory; the directory of the target must exist.
\<close>

definition copy2 :: "path \<Rightarrow> path \<Rightarrow> unit io" where
  "copy2 src dst w =
     (case node_at w src of
        None \<Rightarrow> (Inl FileNotFoundError, w)
      | Some Dir \<Rightarrow> (Inl PermissionError, w)
      | Some (File bs ro) \<Rightarrow>
          (let target = full w (if is_dir w dst then child dst (name src) else dst) in
           if target = full w src then (Inl ShutilError, w)
           else case map_of (fs w) target of
                  Some Dir \<Rightarrow> (Inl PermissionError, w)
                | Some (File _ True) \<Rightarrow> (Inl PermissionError, w)
                | _ \<Rightarrow>
                    if map_of (fs w) (butlast target) = Some Dir
                    then (Inr (), fs_put target (File bs ro) w)
                    else (Inl FileNotFoundError, w)))"

text \<open>\<^verbatim>\<open>os.remove(p)\<close>; Windows refuses to delete a read-only file.\<close>

definition remove :: "path \<Rightarrow> unit io" where
  "remove p w =
     (case node_at w p of
        None \<Rightarrow> (Inl FileNotFoundError, w)
      | Some Dir \<Rightarrow> (Inl PermissionError, w)
      | Some (File _ ro) \<Rightarrow>
          if ro then (Inl PermissionError, w)
          else (Inr (), w\<lparr>fs := AList.delete (full w p) (fs w)\<rparr>))"

text \<open>\<^verbatim>\<open>p.stat().st_file_attributes & stat.FILE_ATTRIBUTE_READONLY\<close>.\<close>

definition stat_readonly :: "world \<Rightarrow> path \<Rightarrow> error + bool" where
  "stat_readonly w p =
     (case node_at w p of
        None \<Rightarrow> Inl FileNotFoundError
      | Some Dir \<Rightarrow> Inr False
      | Some (File _ ro) \<Rightarrow> Inr ro)"

text \<open>\<^verbatim>\<open>p.chmod(0o644)\<close> clears the read-only attribute.\<close>

definition chmod_644 :: "path \<Rightarrow> unit io" where
  "chmod_644 p w =
     (case node_at w p of
        None \<Rightarrow> (Inl FileNotFoundError, w)
      | Some Dir \<Rightarrow> (Inr (), w)
      | Some (File bs _) \<Rightarrow> (Inr (), fs_put (full w p) (File bs False) w))"

text \<open>A file or a directory with all below it gets the new key; an entry at the new key goes.\<close>

definition relocate :: "path \<Rightarrow> path \<Rightarrow> (path \<times> node) list \<Rightarrow> (path \<times> node) list" where
  "relocate a b al =
     map (\<lambda>(p, n). (if is_prefix a p then b @ drop (length a) p else p, n))
       [(p, n) \<leftarrow> al. p \<noteq> b]"

text \<open>\<^verbatim>\<open>p.rename(q)\<close>; on Windows it raises when \<open>q\<close> exists.\<close>

definition rename :: "path \<Rightarrow> path \<Rightarrow> unit io" where
  "rename p q w =
     (if node_at w p = None then (Inl FileNotFoundError, w)
      else if exists w q then (Inl FileExistsError, w)
      else if map_of (fs w) (butlast (full w q)) \<noteq> Some Dir then (Inl FileNotFoundError, w)
      else (Inr (), w\<lparr>fs := relocate (full w p) (full w q) (fs w)\<rparr>))"

text \<open>
  \<^verbatim>\<open>shutil.move(src, dst)\<close>: into \<open>dst\<close> when it is a directory, and never a directory
  into itself; otherwise the source gets the name \<open>dst\<close>.
\<close>

definition move :: "path \<Rightarrow> path \<Rightarrow> unit io" where
  "move src dst w =
     (let target = full w (if is_dir w dst then child dst (name src) else dst) in
      if node_at w src = None then (Inl FileNotFoundError, w)
      else if target = full w src then (Inr (), w)
      else if is_dir w dst \<and> map_of (fs w) target \<noteq> None then (Inl ShutilError, w)
      else if is_prefix (full w src) target then (Inl ShutilError, w)
      else if map_of (fs w) (butlast target) \<noteq> Some Dir then (Inl FileNotFoundError, w)
      else case map_of (fs w) target of
             Some Dir \<Rightarrow> (Inl ShutilError, w)
           | Some (File _ True) \<Rightarrow> (Inl PermissionError, w)
           | _ \<Rightarrow> (Inr (), w\<lparr>fs := relocate (full w src) target (fs w)\<rparr>))"

text \<open>\<^verbatim>\<open>p.mkdir(exist_ok=True)\<close>, and with \<^verbatim>\<open>parents=True\<close> (on the reversed key).\<close>

definition mkdir :: "path \<Rightarrow> unit io" where
  "mkdir p w =
     (case node_at w p of
        Some Dir \<Rightarrow> (Inr (), w)
      | Some (File _ _) \<Rightarrow> (Inl FileExistsError, w)
      | None \<Rightarrow>
          if map_of (fs w) (butlast (full w p)) = Some Dir
          then (Inr (), w\<lparr>fs := fs w @ [(full w p, Dir)]\<rparr>)
          else (Inl FileNotFoundError, w))"

fun mkdir_rev :: "string list \<Rightarrow> (path \<times> node) list \<Rightarrow> error + (path \<times> node) list" where
  "mkdir_rev [] al = Inl FileNotFoundError"
| "mkdir_rev (s # r) al =
     (case map_of al (rev (s # r)) of
        Some Dir \<Rightarrow> Inr al
      | Some (File _ _) \<Rightarrow> Inl FileExistsError
      | None \<Rightarrow>
          (case map_of al (rev r) of
             Some Dir \<Rightarrow> Inr (al @ [(rev (s # r), Dir)])
           | Some (File _ _) \<Rightarrow> Inl NotADirectoryError
           | None \<Rightarrow>
               (case mkdir_rev r al of
                  Inl e \<Rightarrow> Inl e
                | Inr al' \<Rightarrow> Inr (al' @ [(rev (s # r), Dir)]))))"

definition mkdir_parents :: "path \<Rightarrow> unit io" where
  "mkdir_parents p w =
     (case mkdir_rev (rev (full w p)) (fs w) of
        Inl e \<Rightarrow> (Inl e, w)
      | Inr al \<Rightarrow> (Inr (), w\<lparr>fs := al\<rparr>))"

text \<open>\<^verbatim>\<open>open(p, "w")\<close> with one \<^verbatim>\<open>write\<close>, and \<^verbatim>\<open>p.touch()\<close>.\<close>

definition write_text :: "path \<Rightarrow> string \<Rightarrow> unit io" where
  "write_text p content w =
     (case node_at w p of
        Some Dir \<Rightarrow> (Inl PermissionError, w)
      | Some (File _ ro) \<Rightarrow>
          if ro then (Inl PermissionError, w)
          else (Inr (), fs_put (full w p) (File content False) w)
      | None \<Rightarrow>
          if map_of (fs w) (butlast (full w p)) = Some Dir
          then (Inr (), fs_put (full w p) (File content False) w)
          else (Inl FileNotFoundError, w))"

definition touch :: "path \<Rightarrow> unit io" where
  "touch p w =
     (case node_at w p of
        Some _ \<Rightarrow> (Inr (), w)
      | None \<Rightarrow>
          if map_of (fs w) (butlast (full w p)) = Some Dir
          then (Inr (), fs_put (full w p) (File [] False) w)
          else (Inl FileNotFoundError, w))"

text \<open>
  \<^verbatim>\<open>subprocess.run(argv, cwd=dir)\<close> returns whatever the exit status is;
  \<^verbatim>\<open>subprocess.check_call\<close> raises on a status other than 0.
\<close>

definition run :: "env \<Rightarrow> string list \<Rightarrow> path \<Rightarrow> int io" where
  "run env argv dir w =
     (case exec env argv (full w dir) (fs w) of
        (r, al) \<Rightarrow> (r, w\<lparr>fs := al, procs := procs w @ [Run argv dir]\<rparr>))"

definition check_call :: "env \<Rightarrow> string list \<Rightarrow> path \<Rightarrow> unit io" where
  "check_call env argv dir w =
     (case exec env argv (full w dir) (fs w) of
        (r, al) \<Rightarrow>
          ((case r of
              Inl e \<Rightarrow> Inl e
            | Inr status \<Rightarrow> if status = 0 then Inr () else Inl (CalledProcessError status)),
           w\<lparr>fs := al, procs := procs w @ [CheckCall argv dir]\<rparr>))"

text \<open>
  \<^verbatim>\<open>with tempfile.TemporaryDirectory() as tmpdirname\<close>: a new directory, removed with
  all it holds when the block is left, also by an exception.
\<close>

definition with_tmpdir :: "env \<Rightarrow> (path \<Rightarrow> 'a io) \<Rightarrow> 'a io" where
  "with_tmpdir env body w =
     (let tmpdir = mkdtemp env (fs w) in
      case body tmpdir (w\<lparr>fs := fs w @ [(tmpdir, Dir)]\<rparr>) of
        (r, w') \<Rightarrow> (r, w'\<lparr>fs := [(p, n) \<leftarrow> fs w'. \<not> is_prefix tmpdir p]\<rparr>))"

section \<open>Moving, copying and unpacking\<close>

text \<open>The body of the loop of \<^verbatim>\<open>move_tmp_files\<close> (lines 135-141).\<close>

definition move_tmp_files_body :: "path \<Rightarrow> path \<Rightarrow> nat \<Rightarrow> nat io" where
  "move_tmp_files_body dst_dir extracted_file num_moved =
     bnd get (\<lambda>w.
     (let dst_file = child dst_dir (name extracted_file) in
      if exists w dst_file
      then bnd (print (''[WARN] extraction destination already exists: '' @ path_str dst_file))
             (\<lambda>_. ret num_moved)
      else bnd (move extracted_file dst_file) (\<lambda>_. ret (num_moved + 1))))"

text \<open>\<^verbatim>\<open>move_tmp_files\<close> (lines 132-142).\<close>

definition move_tmp_files :: "path \<Rightarrow> path \<Rightarrow> nat io" where
  "move_tmp_files tmpdir dst_dir =
     bnd (lift (\<lambda>w. iterdir w tmpdir)) (\<lambda>files.
     fold_io (move_tmp_files_body dst_dir) files 0)"

text \<open>The message of line 138 for one file of the temporary directory.\<close>

definition warn_line :: "path \<Rightarrow> path \<Rightarrow> string" where
  "warn_line dst_dir f =
     ''[WARN] extraction destination already exists: '' @ path_str (child dst_dir (name f))"

text \<open>\<^verbatim>\<open>tools[tool].get("exists", False)\<close>.\<close>

definition tool_exists :: "tool \<Rightarrow> bool" where
  "tool_exists t = (case texists t of Some b \<Rightarrow> b | None \<Rightarrow> False)"

definition or_raise :: "error \<Rightarrow> 'a option \<Rightarrow> 'a io" where
  "or_raise e x = (case x of None \<Rightarrow> raise e | Some y \<Rightarrow> ret y)"

text \<open>The \<^verbatim>\<open>try\<close> block of lines 171-179: copy the archive, run the tool, delete the copy.\<close>

definition unpack :: "env \<Rightarrow> string \<Rightarrow> path \<Rightarrow> path \<Rightarrow> unit io" where
  "unpack env tool src tmpdir =
     try_except
       (bnd (copy2 src (child tmpdir (name src))) (\<lambda>_.
        bnd get (\<lambda>w.
        bnd (if tool = ''ar''
             then bnd (run env [path_str (tpath (ar_tool (tools w))), ''xo'', name src] tmpdir)
                    (\<lambda>_. ret ())
             else if tool = ''libsplit''
             then bnd (run env [path_str (tpath (libsplit_tool (tools w))), name src] tmpdir)
                    (\<lambda>_. ret ())
             else ret ()) (\<lambda>_.
        remove (child tmpdir (name src))))))
       (\<lambda>e. print (''[ERROR] '' @ tool @ '' extraction failed for '' @ name src @ '': ''
                    @ error_text e))"

text \<open>Lines 185-190: every \<^verbatim>\<open>.obj\<close> left by the splitter is converted and deleted.\<close>

definition convert_obj :: "env \<Rightarrow> path \<Rightarrow> path \<Rightarrow> unit io" where
  "convert_obj env tmpdir f =
     (if suffix_of f = ''.obj''
      then try_except
             (bnd get (\<lambda>w.
              bnd (or_raise ValueError (with_suffix f ''.elf'')) (\<lambda>elf.
              bnd (run env [path_str (tpath (elfcnv_tool (tools w))), name f, name elf] tmpdir)
                (\<lambda>_.
              bnd (or_raise ValueError (with_suffix f ''.obj'')) (\<lambda>obj.
              remove obj)))))
             (\<lambda>e. print (''[ERROR] elfcnv failed for '' @ name f @ '': '' @ error_text e))
      else ret ())"

text \<open>Lines 193-200: clear the read-only attribute, give an ELF file the ELF extension.\<close>

definition fix_extracted :: "path \<Rightarrow> unit io" where
  "fix_extracted f =
     bnd (lift (\<lambda>w. stat_readonly w f)) (\<lambda>ro.
     bnd (if ro then chmod_644 f else ret ()) (\<lambda>_.
     if lower (suffix_of f) \<noteq> ''.elf''
     then bnd (lift (\<lambda>w. is_elf w f)) (\<lambda>elf.
          if elf then bnd (or_raise ValueError (with_suffix f ''.elf'')) (\<lambda>g. rename f g)
          else ret ())
     else ret ()))"

text \<open>\<^verbatim>\<open>tool in tools and not tools[tool].get("exists", False)\<close>.\<close>

definition tool_missing :: "world \<Rightarrow> string \<Rightarrow> bool" where
  "tool_missing w tool =
     (case tools_get (tools w) tool of Some t \<Rightarrow> \<not> tool_exists t | None \<Rightarrow> False)"

text \<open>\<^verbatim>\<open>tools[tool]['path']\<close> in a message, for a key of \<^verbatim>\<open>tools\<close>.\<close>

definition tool_path_str :: "world \<Rightarrow> string \<Rightarrow> string" where
  "tool_path_str w tool =
     (case tools_get (tools w) tool of Some t \<Rightarrow> path_str (tpath t) | None \<Rightarrow> [])"

text \<open>
  \<^verbatim>\<open>extract_or_copy\<close> (lines 145-206). \<^verbatim>\<open>num_extracted\<close> starts at 0 and is assigned
  only by \<^verbatim>\<open>move_tmp_files\<close>.
\<close>

definition extract_or_copy :: "env \<Rightarrow> string \<Rightarrow> path \<Rightarrow> path \<Rightarrow> nat io" where
  "extract_or_copy env tool src dst_dir =
     bnd get (\<lambda>w.
     (let num_extracted = 0 in
      if tool_missing w tool
      then bnd (print (''[WARN] '' @ tool @ '' not found: '' @ tool_path_str w tool
                       @ '' - cannot process '' @ name src))
             (\<lambda>_. ret num_extracted)
      else if tool = ''copy''
      then (let dst_file = child dst_dir (name src) in
            if exists w dst_file
            then bnd (print (''[WARN] destination already exists: '' @ path_str dst_file
                             @ '' - skipping copy''))
                   (\<lambda>_. ret num_extracted)
            else bnd (print (''[COPY] '' @ path_str src @ [CHR 0x09] @ ''-> ''
                             @ path_str dst_file)) (\<lambda>_.
                 bnd (copy2 src dst_file) (\<lambda>_.
                 ret num_extracted)))
      else if tool = ''ar'' \<or> tool = ''libsplit''
      then bnd (print (''[EXTRACT] Using '' @ tool @ '' to extract '' @ name src @ '' in ''
                       @ path_str dst_dir)) (\<lambda>_.
           with_tmpdir env (\<lambda>tmpdir.
             bnd (unpack env tool src tmpdir) (\<lambda>_.
             bnd (if tool = ''libsplit''
                  then bnd (lift (\<lambda>w. iterdir w tmpdir)) (for_each (convert_obj env tmpdir))
                  else bnd (lift (\<lambda>w. iterdir w tmpdir)) (for_each fix_extracted)) (\<lambda>_.
             move_tmp_files tmpdir dst_dir))))
      else bnd (print (''[WARN] unknown tool: '' @ tool)) (\<lambda>_. ret num_extracted)))"

section \<open>Ignore rules, generated files and the build\<close>

text \<open>
  \<^verbatim>\<open>should_ignore\<close> (lines 54-68); it prints in a dry run. \<^verbatim>\<open>IGNORE_DIRS\<close> is a set:
  when several of its names occur in the path, the one printed is the first that the
  iteration meets (here: the first of the list).
\<close>

definition ignored_dir :: "path \<Rightarrow> string option" where
  "ignored_dir p =
     (case [d \<leftarrow> IGNORE_DIRS.
              str_in (''/'' @ d @ ''/'') (lower (path_str p)) \<or>
              str_in ([backslash] @ d @ [backslash]) (lower (path_str p))] of
        [] \<Rightarrow> None
      | d # _ \<Rightarrow> Some d)"

definition should_ignore :: "env \<Rightarrow> path \<Rightarrow> bool io" where
  "should_ignore env p =
     (if lower (name p) \<in> set IGNORE_FILES
      then bnd (if DEBUG env then print (''[IGNORE] file: '' @ path_str p) else ret ())
             (\<lambda>_. ret True)
      else case ignored_dir p of
             Some d \<Rightarrow>
               bnd (if DEBUG env
                    then print (''[IGNORE] dir ('' @ d @ ''): '' @ path_str p) else ret ())
                 (\<lambda>_. ret True)
           | None \<Rightarrow> ret False)"

text \<open>The properties file of \<^verbatim>\<open>create_extra_files\<close> (lines 213-219), line by line.\<close>

definition root_folder_line :: "string \<Rightarrow> string" where
  "root_folder_line compiler =
     ''Select root folder containing all libraries (at a depth of 3): = /'' @ compiler"

definition properties_lines :: "string \<Rightarrow> string \<Rightarrow> string list" where
  "properties_lines sdk_name compiler =
     [''Duplicate Results File OK = duplicates.txt'',
      ''Do Duplication Detection Do you want to detect duplicates = true'',
      ''Choose destination FidDB Please choose the destination FidDB for population = ''
        @ sdk_name @ ''.fidb'',
      root_folder_line compiler,
      ''Common symbols file (optional): OK = common_symbols.txt'',
      ''Enter LanguageID To Process Language ID: = SuperH4:LE:32:default'']"

definition unlines :: "string list \<Rightarrow> string" where
  "unlines ls = concat (map (\<lambda>l. l @ [CHR 0x0A]) ls)"

text \<open>\<^verbatim>\<open>create_extra_files\<close> (lines 209-225).\<close>

definition create_extra_files :: "path \<Rightarrow> string \<Rightarrow> string \<Rightarrow> unit io" where
  "create_extra_files project_root sdk_name compiler =
     (let props_path = child project_root ''CreateMultipleLibraries.properties'' in
      bnd (write_text props_path (unlines (properties_lines sdk_name compiler))) (\<lambda>_.
      bnd (touch (child project_root ''duplicates.txt'')) (\<lambda>_.
      bnd (touch (child project_root ''common_symbols.txt'')) (\<lambda>_.
      print (''[INFO] Created '' @ path_str props_path
             @ '', empty duplicates.txt and common_symbols.txt'')))))"

text \<open>\<^verbatim>\<open>Path(s)\<close> for a relative string: its parts, without empty ones and single dots.\<close>

fun split_parts :: "string \<Rightarrow> string \<Rightarrow> string list" where
  "split_parts acc [] = [acc]"
| "split_parts acc (c # s) =
     (if c = CHR ''/'' \<or> c = backslash then acc # split_parts [] s
      else split_parts (acc @ [c]) s)"

definition Path_of :: "string \<Rightarrow> path" where
  "Path_of s = [p \<leftarrow> split_parts [] s. p \<noteq> [] \<and> p \<noteq> ''.'']"

text \<open>Decimal digits of a number in a message.\<close>

fun show_nat :: "nat \<Rightarrow> string" where
  "show_nat n =
     (if n < 10 then [char_of (48 + n)]
      else show_nat (n div 10) @ [char_of (48 + n mod 10)])"

declare show_nat.simps [simp del]

text \<open>Lines 236-240, for one key of \<^verbatim>\<open>tools\<close>.\<close>

definition resolve_tool :: "path \<Rightarrow> string \<Rightarrow> unit io" where
  "resolve_tool sdk_root tool w =
     (case tools_get (tools w) tool of
        None \<Rightarrow> (Inl KeyError, w)
      | Some t \<Rightarrow>
          (let t1 = (if rel t then t\<lparr>tpath := pjoin sdk_root (tpath t)\<rparr> else t);
               t2 = (if \<not> tool_exists t1 then t1\<lparr>texists := Some (exists w (tpath t1))\<rparr>
                     else t1)
           in (Inr (), w\<lparr>tools := tools_set (tools w) tool t2\<rparr>)))"

definition ANALYZE :: "env \<Rightarrow> string" where
  "ANALYZE env = path_str (GHIDRA_HOME env @ [''support'', ''analyzeHeadless.bat''])"

definition cmd1 :: "env \<Rightarrow> string \<Rightarrow> string set \<Rightarrow> string list" where
  "cmd1 env fidb_name compilers =
     [ANALYZE env, ''ghidraproj'', fidb_name]
     @ concat (map (\<lambda>compiler. [''-import'', compiler]) (set_list env compilers))
     @ [''-recursive'',
        ''-processor'', ''SuperH4:LE:32:default'',
        ''-preScript'', ''FunctionIDHeadlessPrescript.java'',
        ''-postScript'', ''FunctionIDHeadlessPostscript.java'',
        ''-scriptlog'', ''script.log'',
        ''-log'', ''analyze.log'']"

definition cmd2 :: "env \<Rightarrow> string \<Rightarrow> string list" where
  "cmd2 env fidb_name =
     [ANALYZE env, ''ghidraproj'', fidb_name,
      ''-noanalysis'',
      ''-propertiesPath'', ''.'',
      ''-preScript'', ''CreateEmptyFidDatabase.java'', fidb_name @ ''.fidb'',
      ''-preScript'', ''FunctionIDHeadlessPrescript.java'',
      ''-preScript'', ''CreateMultipleLibraries.java'',
      ''-log'', ''generation.log'']"

definition join_space :: "string list \<Rightarrow> string" where
  "join_space ss = (case ss of [] \<Rightarrow> [] | s # r \<Rightarrow> s @ concat (map (\<lambda>t. '' '' @ t) r))"

text \<open>\<^verbatim>\<open>try: m  except subprocess.CalledProcessError as e: h\<close>.\<close>

definition try_called :: "'a io \<Rightarrow> (error \<Rightarrow> 'a io) \<Rightarrow> 'a io" where
  "try_called m h w =
     (case m w of
        (Inl (CalledProcessError status), w') \<Rightarrow> h (CalledProcessError status) w'
      | (r, w') \<Rightarrow> (r, w'))"

text \<open>
  The body of the walk of \<^verbatim>\<open>build_fidb\<close> (lines 259-289), on the pair of
  \<^verbatim>\<open>copied\<close> and \<^verbatim>\<open>compilers\<close>; \<^verbatim>\<open>continue\<close> leaves the pair as it is.
\<close>

definition build_file ::
  "env \<Rightarrow> path \<Rightarrow> path \<Rightarrow> path \<Rightarrow> nat \<times> string set \<Rightarrow> (nat \<times> string set) io" where
  "build_file env sdk_root project_root file = (\<lambda>(copied, compilers).
     bnd get (\<lambda>w.
     if \<not> is_file w file \<or> lower (suffix_of file) \<notin> set VALID_EXTS
     then ret (copied, compilers)
     else
     bnd (should_ignore env file) (\<lambda>ignore.
     if ignore then ret (copied, compilers)
     else
     bnd (lift (\<lambda>w. detect_compiler w file)) (\<lambda>found.
     case found of
       None \<Rightarrow>
         bnd (print (''[WARN] unknown compiler: '' @ path_str file))
           (\<lambda>_. ret (copied, compilers))
     | Some compiler \<Rightarrow>
         (let compilers = insert compiler compilers;
              version = detect_variant file;
              library = name file;
              dst_dir = child (child (child (child project_root compiler) library) version)
                          (name sdk_root)
          in
          bnd (if \<not> DEBUG env
               then bnd get (\<lambda>w.
                    if \<not> exists w dst_dir
                    then bnd (print (''[MKDIR] '' @ path_str dst_dir))
                           (\<lambda>_. mkdir_parents dst_dir)
                    else ret ())
               else ret ()) (\<lambda>_.
          bnd (lift (\<lambda>w. choose_tool w file)) (\<lambda>tool.
          if DEBUG env
          then bnd (print (''[INFO] '' @ tool @ '': '' @ path_str file @ [CHR 0x09] @ ''-> ''
                           @ path_str dst_dir))
                 (\<lambda>_. ret (copied + 1, compilers))
          else bnd (extract_or_copy env tool file dst_dir)
                 (\<lambda>n. ret (copied + n, compilers)))))))))"

text \<open>Lines 299-358: the two runs of the analysis tool, or their printout in a dry run.\<close>

definition analysis_driver :: "env \<Rightarrow> string \<Rightarrow> path \<Rightarrow> string set \<Rightarrow> unit io" where
  "analysis_driver env fidb_name project_root compilers =
     (if DEBUG env
      then bnd (print []) (\<lambda>_.
           bnd (print ''AnalyzeHeadless commands:'') (\<lambda>_.
           bnd (print (join_space (cmd1 env fidb_name compilers))) (\<lambda>_.
           bnd (print (join_space (cmd2 env fidb_name))) (\<lambda>_.
           bnd (print []) (\<lambda>_.
           bnd (print ''DEBUG mode is ENABLED.'') (\<lambda>_.
           bnd (print ''No folders were created, no files were copied,'') (\<lambda>_.
           bnd (print ''and analyzeHeadless was NOT invoked.'') (\<lambda>_.
           bnd (print []) (\<lambda>_.
           print ''Set DEBUG = False in the script to perform the actual build.'')))))))))
      else
      bnd (try_called
             (bnd (print ''[RUN ] analyzeHeadless (1/2)'') (\<lambda>_.
              check_call env (cmd1 env fidb_name compilers) project_root))
             (\<lambda>e. bnd (print (''[ERROR] analyzeHeadless first run failed: '' @ error_text e))
                     (\<lambda>_. raise e))) (\<lambda>_.
      bnd (case set_list env compilers of
             [] \<Rightarrow> raise IndexError
           | compiler # _ \<Rightarrow> create_extra_files project_root fidb_name compiler) (\<lambda>_.
      bnd (try_called
             (bnd (print ''[RUN ] analyzeHeadless (2/2)'') (\<lambda>_.
              check_call env (cmd2 env fidb_name) project_root))
             (\<lambda>e. bnd (print (''[ERROR] analyzeHeadless second run failed: '' @ error_text e))
                     (\<lambda>_. raise e))) (\<lambda>_.
      print (''[+] FIDB generated: '' @ fidb_name @ ''.fidb'')))))"

text \<open>Lines 255-297: the walk, then the test of \<^verbatim>\<open>copied\<close>; \<^verbatim>\<open>exit(1)\<close> raises.\<close>

definition walk :: "env \<Rightarrow> path \<Rightarrow> path \<Rightarrow> (nat \<times> string set) io" where
  "walk env sdk_root project_root =
     bnd get (\<lambda>w. fold_io (build_file env sdk_root project_root) (rglob w sdk_root) (0, {}))"

definition build_tree :: "env \<Rightarrow> string \<Rightarrow> path \<Rightarrow> path \<Rightarrow> unit io" where
  "build_tree env fidb_name sdk_root project_root =
     bnd (walk env sdk_root project_root) (\<lambda>(copied, compilers).
     if copied = 0
     then bnd (print ''No SDK files were copied. Check filters or paths.'')
            (\<lambda>_. raise (SystemExit 1))
     else bnd (print (''[+] Copied '' @ show_nat copied @ '' files''))
            (\<lambda>_. analysis_driver env fidb_name project_root compilers))"

definition pad13 :: "string \<Rightarrow> string" where
  "pad13 s = s @ replicate (13 - length s) (CHR '' '')"

text \<open>
  Lines 236-253 of \<^verbatim>\<open>build_fidb\<close>: the tool table, then the printout of a dry run or
  the work directory. The value is \<open>False\<close> for the \<^verbatim>\<open>return\<close> of line 251.
\<close>

definition prepare :: "env \<Rightarrow> path \<Rightarrow> path \<Rightarrow> bool io" where
  "prepare env sdk_root project_root =
     bnd (for_each (resolve_tool sdk_root) tool_names) (\<lambda>_.
     bnd get (\<lambda>w.
     if DEBUG env
     then bnd (print (''[DEBUG] SDK root     : '' @ path_str sdk_root)) (\<lambda>_.
          bnd (print (''[DEBUG] Project root : '' @ path_str project_root)) (\<lambda>_.
          bnd (for_each
                 (\<lambda>tool. print (''[DEBUG] '' @ pad13 tool @ '': (''
                                 @ (if tool_missing w tool then ''MISSING'' else ''found'')
                                 @ '') '' @ tool_path_str w tool))
                 tool_names) (\<lambda>_.
          bnd (print []) (\<lambda>_.
          ret True))))
     else if exists w project_root
     then bnd (print (path_str project_root
                      @ '' already exists. Remove it before running the script.''))
            (\<lambda>_. ret False)
     else bnd (mkdir_parents project_root) (\<lambda>_.
          bnd (mkdir (child project_root ''ghidraproj'')) (\<lambda>_.
          ret True))))"

text \<open>\<^verbatim>\<open>build_fidb\<close> (lines 231-358).\<close>

definition build_fidb :: "env \<Rightarrow> string \<Rightarrow> path \<Rightarrow> unit io" where
  "build_fidb env fidb_name sdk_root_arg =
     bnd get (\<lambda>w0.
     (let sdk_root = full w0 sdk_root_arg;
          project_root = Path_of (''fid_work_'' @ fidb_name)
      in
      bnd (prepare env sdk_root project_root) (\<lambda>continue.
      if continue then build_tree env fidb_name sdk_root project_root
      else ret ())))"

text \<open>
  The script: the module level stops with \<^verbatim>\<open>exit(1)\<close> when the analysis tool is not
  found (lines 32-35); the entry point changes the directory and builds one database
  (lines 365-372). The status of the process is 0 when the script ends, the argument of
  \<^verbatim>\<open>exit\<close>, and 1 for any other exception.
\<close>

definition chdir :: "path \<Rightarrow> unit io" where
  "chdir p w = (if is_dir w p then (Inr (), w\<lparr>cwd := full w p\<rparr>) else (Inl FileNotFoundError, w))"

definition module_level :: "env \<Rightarrow> unit io" where
  "module_level env =
     bnd get (\<lambda>w.
     if \<not> exists w (GHIDRA_HOME env @ [''support'', ''analyzeHeadless.bat''])
     then bnd (print (''Ghidra not installed or GHIDRA_HOME not set correctly.'' @ [CHR 0x0A]
                      @ ''Not found: '' @ ANALYZE env))
            (\<lambda>_. raise (SystemExit 1))
     else ret ())"

definition script :: "env \<Rightarrow> unit io" where
  "script env =
     bnd (module_level env) (\<lambda>_.
     bnd (chdir [''E:'' @ [backslash], ''Games'', ''Dreamcast'', ''Samba2K_hack'', ''sdk''])
       (\<lambda>_.
     build_fidb env ''dc_sdk_r11'' [''r11'']))"

fun exit_status :: "error + unit \<Rightarrow> int" where
  "exit_status (Inr _) = 0"
| "exit_status (Inl (SystemExit status)) = status"
| "exit_status (Inl _) = 1"

section \<open>Calls of the analysis tool\<close>

text \<open>
  The analysis tool is the one program started with \<^verbatim>\<open>subprocess.check_call\<close>; a
  statement is quiet when it leaves the list of these calls as it finds it.
\<close>

definition analysis_calls :: "world \<Rightarrow> call list" where
  "analysis_calls w = [c \<leftarrow> procs w. case c of CheckCall _ _ \<Rightarrow> True | Run _ _ \<Rightarrow> False]"

definition quiet :: "'a io \<Rightarrow> bool" where
  "quiet m = (\<forall>w. analysis_calls (snd (m w)) = analysis_calls w)"

section \<open>Example worlds\<close>

definition drive :: string where
  "drive = ''C:'' @ [backslash]"

definition world_libs :: world where
  "world_libs =
     \<lparr>fs = [([drive], Dir),
            ([drive, ''sdk''], Dir),
            ([drive, ''sdk'', ''real.lib''], File ''!<arch>members'' False),
            ([drive, ''sdk'', ''hitachi.lib''], File ''HLIB0001'' False),
            ([drive, ''sdk'', ''prog.bin''], File (elf_magic @ ''code'') False),
            ([drive, ''sdk'', ''note.txt''], File ''ELF'' False)],
      cwd = [drive], out = [], procs = [], tools = tools_init\<rparr>"

definition sdk_dir :: path where
  "sdk_dir = [''E:'' @ [backslash], ''Games'', ''Dreamcast'', ''Samba2K_hack'', ''sdk'']"

definition env_real :: env where
  "env_real =
     \<lparr>DEBUG = False,
      GHIDRA_HOME = [''E:'' @ [backslash], ''ghidra''],
      exec = (\<lambda>argv dir al. (Inr 0, al)),
      mkdtemp = (\<lambda>al. [drive, ''tmp0'']),
      set_list = (\<lambda>S. [c \<leftarrow> [''gcc'', ''shc'']. c \<in> S])\<rparr>"

definition env_dry :: env where
  "env_dry = env_real\<lparr>DEBUG := True\<rparr>"

definition world_rerun :: world where
  "world_rerun =
     \<lparr>fs = [([''E:'' @ [backslash]], Dir),
            ([''E:'' @ [backslash], ''ghidra''], Dir),
            ([''E:'' @ [backslash], ''ghidra'', ''support''], Dir),
            ([''E:'' @ [backslash], ''ghidra'', ''support'', ''analyzeHeadless.bat''],
             File ''bat'' False),
            ([''E:'' @ [backslash], ''Games''], Dir),
            ([''E:'' @ [backslash], ''Games'', ''Dreamcast''], Dir),
            ([''E:'' @ [backslash], ''Games'', ''Dreamcast'', ''Samba2K_hack''], Dir),
            (sdk_dir, Dir),
            (sdk_dir @ [''r11''], Dir),
            (sdk_dir @ [''fid_work_dc_sdk_r11''], Dir)],
      cwd = [''E:'' @ [backslash]], out = [], procs = [], tools = tools_init\<rparr>"

definition world_objects :: world where
  "world_objects =
     \<lparr>fs = [([drive], Dir),
            ([drive, ''r11''], Dir),
            ([drive, ''r11'', ''foo.o''], File ''object code'' False)],
      cwd = [drive], out = [], procs = [], tools = tools_init\<rparr>"

definition world_tmp :: world where
  "world_tmp =
     \<lparr>fs = [([drive], Dir),
            ([drive, ''tmp''], Dir),
            ([drive, ''tmp'', ''a.o''], File ''new a'' False),
            ([drive, ''tmp'', ''b.o''], File ''new b'' False),
            ([drive, ''dst''], Dir),
            ([drive, ''dst'', ''a.o''], File ''old a'' False),
            ([drive, ''src''], Dir),
            ([drive, ''src'', ''a.o''], File ''src a'' False),
            ([drive, ''src'', ''c.o''], File ''src c'' False)],
      cwd = [drive], out = [], procs = [], tools = tools_init\<rparr>"


definition world_ar :: world where
  "world_ar =
     world_libs\<lparr>tools := tools_init\<lparr>ar_tool :=
       \<lparr>rel = False, tpath = [drive, ''ar.exe''], texists = Some True\<rparr>\<rparr>\<rparr>"

section \<open>Evaluation rules and path lemmas\<close>

lemmas ev = drive_def lower_def lower_char_def endswith_def backslash_def is_anchor_def
  is_absolute_def path_str_def name_def suffix_of_def full_def node_at_def open_rb_def
  has_nul_def
  ar_magic_def elf_magic_def

lemma endswith_append:
  assumes "pre = [] \<or> last pre \<notin> set x"
  shows "endswith (pre @ n) x = endswith n x"
proof (cases "pre = []")
  case True
  then show ?thesis by simp
next
  case False
  with assms have notin: "last pre \<notin> set x" by simp
  show ?thesis
  proof (cases "length x \<le> length n")
    case True
    then show ?thesis by (simp add: endswith_def)
  next
    case long: False
    have "\<not> endswith (pre @ n) x"
    proof
      assume e: "endswith (pre @ n) x"
      define k where "k = length (pre @ n) - length x"
      from e have le: "length x \<le> length (pre @ n)" and dr: "drop k (pre @ n) = x"
        by (simp_all add: endswith_def k_def)
      from long le have klt: "k < length pre" by (simp add: k_def)
      then have ne: "drop k pre \<noteq> []" by simp
      from klt dr have x: "x = drop k pre @ n" by simp
      from ne have "last (drop k pre) = last pre" using klt by simp
      moreover from ne have "last (drop k pre) \<in> set (drop k pre)" by (rule last_in_set)
      ultimately have "last pre \<in> set x" using x by simp
      with notin show False by simp
    qed
    moreover from long have "\<not> endswith n x" by (simp add: endswith_def)
    ultimately show ?thesis by simp
  qed
qed

lemma join_sep_last:
  "ps \<noteq> [] \<Longrightarrow> \<exists>pre. join_sep ps = pre @ last ps \<and> (pre = [] \<or> last pre = backslash)"
proof (induction ps rule: join_sep.induct)
  case 1
  then show ?case by simp
next
  case (2 s)
  then show ?case by simp
next
  case (3 s t ss)
  then obtain pre where pre: "join_sep (t # ss) = pre @ last (t # ss)"
    and sep: "pre = [] \<or> last pre = backslash" by auto
  let ?pre = "s @ [backslash] @ pre"
  from pre have "join_sep (s # t # ss) = ?pre @ last (s # t # ss)" by simp
  moreover from sep have "last ?pre = backslash" by auto
  ultimately show ?case by blast
qed

lemma path_str_name:
  assumes "p \<noteq> []"
  shows "\<exists>pre. path_str p = pre @ name p \<and>
           (pre = [] \<or> last pre = backslash \<or> last pre = CHR ''/'')"
proof -
  from assms obtain a ps where p: "p = a # ps" by (cases p) auto
  obtain pre0 where j: "join_sep p = pre0 @ last p"
    and s0: "pre0 = [] \<or> last pre0 = backslash"
    using join_sep_last [OF assms] by auto
  show ?thesis
  proof (cases "is_anchor (last p)")
    case True
    then have n: "name p = []" by (simp add: name_def)
    have "path_str p \<noteq> [] \<and> (last (path_str p) = backslash \<or> last (path_str p) = CHR ''/'')"
    proof (cases "ps = []")
      case True
      with p \<open>is_anchor (last p)\<close> show ?thesis
        by (auto simp: path_str_def is_anchor_def)
    next
      case False
      then obtain pre1 where j1: "join_sep ps = pre1 @ last ps" 
        using join_sep_last by blast
      from False p have l: "last p = last ps" by simp
      with True have la: "last ps \<noteq> [] \<and> (last (last ps) = backslash \<or> last (last ps) = CHR ''/'')"
        by (simp add: is_anchor_def)
      from j l la have "join_sep p \<noteq> [] \<and> last (join_sep p) = last (last ps)" by simp
      moreover from j1 la have "a @ join_sep ps \<noteq> [] \<and> last (a @ join_sep ps) = last (last ps)"
        by simp
      ultimately show ?thesis using la p by (simp add: path_str_def)
    qed
    with n show ?thesis by auto
  next
    case na: False
    then have n: "name p = last p" using assms by (simp add: name_def)
    show ?thesis
    proof (cases "is_anchor a")
      case False
      with p have "path_str p = join_sep p" by (simp add: path_str_def)
      with j n have "path_str p = pre0 @ name p" by simp
      with s0 show ?thesis by blast
    next
      case True
      with na p have ne: "ps \<noteq> []" by auto
      then obtain pre1 where j1: "join_sep ps = pre1 @ last ps"
        and s1: "pre1 = [] \<or> last pre1 = backslash"
        using join_sep_last by blast
      from ne p have l: "last p = last ps" by simp
      from True p have "path_str p = a @ join_sep ps" by (simp add: path_str_def)
      with j1 l n have "path_str p = (a @ pre1) @ name p" by simp
      moreover from True s1 have "last (a @ pre1) = backslash \<or> last (a @ pre1) = CHR ''/''"
        by (cases "pre1 = []") (auto simp: is_anchor_def)
      ultimately show ?thesis by blast
    qed
  qed
qed

lemma lower_char_sep: "lower_char backslash = backslash" "lower_char (CHR ''/'') = CHR ''/''"
  by (simp_all add: lower_char_def backslash_def)

lemma endswith_lower_path_str:
  assumes "2 \<le> length x" "backslash \<notin> set x" "CHR ''/'' \<notin> set x"
  shows "endswith (lower (path_str p)) x = endswith (lower (name p)) x"
proof (cases "p = []")
  case True
  with assms(1) show ?thesis by (auto simp: path_str_def name_def endswith_def lower_def)
next
  case False
  then obtain pre where ps: "path_str p = pre @ name p"
    and sep: "pre = [] \<or> last pre = backslash \<or> last pre = CHR ''/''"
    using path_str_name by blast
  have "lower pre = [] \<or> last (lower pre) \<notin> set x"
  proof (cases "pre = []")
    case True
    then show ?thesis by (simp add: lower_def)
  next
    case False
    then have "last (lower pre) = lower_char (last pre)" by (simp add: lower_def last_map)
    with sep False assms(2,3) show ?thesis by (auto simp: lower_char_sep)
  qed
  then have "endswith (lower pre @ lower (name p)) x = endswith (lower (name p)) x"
    by (rule endswith_append)
  with ps show ?thesis by (simp add: lower_def)
qed


lemma is_ar_archive_name:
  "is_ar_archive w p =
     (if endswith (lower (name p)) ''.a'' \<or> endswith (lower (name p)) ''.elf.lib''
      then Inr True
      else if endswith (lower (name p)) ''.lib''
      then (case open_rb w p of
              Inl e \<Rightarrow> Inl e
            | Inr bs \<Rightarrow> Inr (take 7 bs = ar_magic))
      else Inr False)"
  by (simp add: is_ar_archive_def endswith_lower_path_str backslash_def)

text \<open>
  Claim C4. A path with a part that is, ignoring case, \<^verbatim>\<open>gnu\<close> or \<^verbatim>\<open>sh-elf\<close> is
  classified \<^verbatim>\<open>"gcc"\<close> in every world: whatever its extension, and whether or not the
  file exists or can be read.
\<close>

theorem detect_compiler_gnu_folder:
  assumes "s \<in> set p" and "lower s = ''gnu'' \<or> lower s = ''sh-elf''"
  shows "detect_compiler w p = Inr (Some ''gcc'')"
proof -
  from assms have "''gnu'' \<in> set (map lower p) \<or> ''sh-elf'' \<in> set (map lower p)"
    by (metis image_eqI set_map)
  then show ?thesis by (auto simp: detect_compiler_def)
qed

theorem detect_compiler_gnu_folder_witness:
  "''GNU'' \<in> set [drive, ''sdk'', ''GNU'', ''hitachi.lib''] \<and> lower ''GNU'' = ''gnu'' \<and>
   detect_compiler world_libs [drive, ''sdk'', ''GNU'', ''hitachi.lib''] = Inr (Some ''gcc'')"
proof -
  have m: "''GNU'' \<in> set [drive, ''sdk'', ''GNU'', ''hitachi.lib'']" by simp
  have l: "lower ''GNU'' = ''gnu'' \<or> lower ''GNU'' = ''sh-elf''" by (simp add: ev)
  from detect_compiler_gnu_folder [OF m l, of world_libs] m show ?thesis by (simp add: ev)
qed

text \<open>
  Claim C8 says that \<^verbatim>\<open>is_ar_archive\<close> returns \<^verbatim>\<open>False\<close> on every path outside the
  three listed cases. A path ending in \<^verbatim>\<open>.lib\<close> whose file does not exist is outside
  them, and there the unguarded \<^verbatim>\<open>open\<close> raises instead.
\<close>

theorem is_ar_archive_missing_lib_counterexample:
  "\<not> endswith (lower (name [drive, ''sdk'', ''missing.lib''])) ''.a'' \<and>
   \<not> endswith (lower (name [drive, ''sdk'', ''missing.lib''])) ''.elf.lib'' \<and>
   open_rb world_libs [drive, ''sdk'', ''missing.lib''] = Inl FileNotFoundError \<and>
   is_ar_archive world_libs [drive, ''sdk'', ''missing.lib''] = Inl FileNotFoundError \<and>
   is_ar_archive world_libs [drive, ''sdk'', ''missing.lib''] \<noteq> Inr False"
  by (simp add: is_ar_archive_def ev world_libs_def)

text \<open>
  Claim C8, amended. \<^verbatim>\<open>is_ar_archive\<close> returns \<^verbatim>\<open>True\<close> exactly when the name ends,
  ignoring case, in \<^verbatim>\<open>.a\<close> or \<^verbatim>\<open>.elf.lib\<close>, or ends in \<^verbatim>\<open>.lib\<close> and the file opens
  and its first 7 bytes are \<^verbatim>\<open>!<arch>\<close>. It returns \<^verbatim>\<open>False\<close> exactly when the name has
  none of the three endings, or ends in \<^verbatim>\<open>.lib\<close> and the file opens with other leading
  bytes. It raises exactly when the name ends in \<^verbatim>\<open>.lib\<close> (not \<^verbatim>\<open>.elf.lib\<close>) and opening
  the file raises, with the same error. For a name ending in \<^verbatim>\<open>.a\<close> or \<^verbatim>\<open>.elf.lib\<close>
  the result is \<^verbatim>\<open>True\<close> in every world, so the content is not read.
\<close>

theorem is_ar_archive_cases:
  "(is_ar_archive w p = Inr True \<longleftrightarrow>
      endswith (lower (name p)) ''.a'' \<or> endswith (lower (name p)) ''.elf.lib'' \<or>
      (endswith (lower (name p)) ''.lib'' \<and>
       (\<exists>bs. open_rb w p = Inr bs \<and> take 7 bs = ''!<arch>''))) \<and>
   (is_ar_archive w p = Inr False \<longleftrightarrow>
      \<not> endswith (lower (name p)) ''.a'' \<and> \<not> endswith (lower (name p)) ''.elf.lib'' \<and>
      (endswith (lower (name p)) ''.lib'' \<longrightarrow>
       (\<exists>bs. open_rb w p = Inr bs \<and> take 7 bs \<noteq> ''!<arch>''))) \<and>
   (is_ar_archive w p = Inl e \<longleftrightarrow>
      \<not> endswith (lower (name p)) ''.a'' \<and> \<not> endswith (lower (name p)) ''.elf.lib'' \<and>
      endswith (lower (name p)) ''.lib'' \<and> open_rb w p = Inl e) \<and>
   (endswith (lower (name p)) ''.a'' \<or> endswith (lower (name p)) ''.elf.lib'' \<longrightarrow>
      (\<forall>w'. is_ar_archive w' p = Inr True))"
  by (auto simp: is_ar_archive_name ar_magic_def split: sum.splits)

theorem is_ar_archive_cases_witness:
  "is_ar_archive world_libs [drive, ''sdk'', ''real.lib''] = Inr True \<and>
   is_ar_archive world_libs [drive, ''sdk'', ''hitachi.lib''] = Inr False \<and>
   is_ar_archive world_libs [drive, ''sdk'', ''note.txt''] = Inr False \<and>
   endswith (lower (name [drive, ''sdk'', ''LIBC.A''])) ''.a'' \<and>
   is_ar_archive \<lparr>fs = [], cwd = [], out = [], procs = [], tools = tools_init\<rparr>
     [drive, ''sdk'', ''LIBC.A''] = Inr True"
proof -
  have r: "endswith (lower (name [drive, ''sdk'', ''real.lib''])) ''.lib'' \<and>
      open_rb world_libs [drive, ''sdk'', ''real.lib''] = Inr ''!<arch>members'' \<and>
      take 7 ''!<arch>members'' = ''!<arch>''"
    by (simp add: ev world_libs_def)
  have h: "\<not> endswith (lower (name [drive, ''sdk'', ''hitachi.lib''])) ''.a'' \<and>
      \<not> endswith (lower (name [drive, ''sdk'', ''hitachi.lib''])) ''.elf.lib'' \<and>
      open_rb world_libs [drive, ''sdk'', ''hitachi.lib''] = Inr ''HLIB0001'' \<and>
      take 7 ''HLIB0001'' \<noteq> ''!<arch>''"
    by (simp add: ev world_libs_def)
  have n: "\<not> endswith (lower (name [drive, ''sdk'', ''note.txt''])) ''.a'' \<and>
      \<not> endswith (lower (name [drive, ''sdk'', ''note.txt''])) ''.elf.lib'' \<and>
      \<not> endswith (lower (name [drive, ''sdk'', ''note.txt''])) ''.lib''"
    by (simp add: ev)
  have a: "endswith (lower (name [drive, ''sdk'', ''LIBC.A''])) ''.a''"
    by (simp add: ev)
  from is_ar_archive_cases [of world_libs "[drive, ''sdk'', ''real.lib'']"] r
  have 1: "is_ar_archive world_libs [drive, ''sdk'', ''real.lib''] = Inr True" by blast
  from is_ar_archive_cases [of world_libs "[drive, ''sdk'', ''hitachi.lib'']"] h
  have 2: "is_ar_archive world_libs [drive, ''sdk'', ''hitachi.lib''] = Inr False" by blast
  from is_ar_archive_cases [of world_libs "[drive, ''sdk'', ''note.txt'']"] n
  have 3: "is_ar_archive world_libs [drive, ''sdk'', ''note.txt''] = Inr False" by blast
  from is_ar_archive_cases [of _ "[drive, ''sdk'', ''LIBC.A'']"] a
  have 4: "is_ar_archive \<lparr>fs = [], cwd = [], out = [], procs = [], tools = tools_init\<rparr>
     [drive, ''sdk'', ''LIBC.A''] = Inr True" by blast
  from 1 2 3 4 a show ?thesis by blast
qed

text \<open>
  Claim C10. When opening or reading the file raises an \<^verbatim>\<open>IOError\<close>, \<^verbatim>\<open>is_elf\<close>
  returns \<^verbatim>\<open>False\<close> and does not raise; when the file opens the result is \<^verbatim>\<open>True\<close>
  exactly when its first 4 bytes are the byte 0x7F followed by \<^verbatim>\<open>ELF\<close>. An exception
  of \<^verbatim>\<open>open\<close> that is no \<^verbatim>\<open>IOError\<close> is not caught.
\<close>

theorem is_elf_cases:
  "(\<forall>e. open_rb w p = Inl e \<and> is_IOError e \<longrightarrow> is_elf w p = Inr False) \<and>
   (\<forall>bs. open_rb w p = Inr bs \<longrightarrow>
      is_elf w p = Inr (take 4 bs = [CHR 0x7F, CHR ''E'', CHR ''L'', CHR ''F''])) \<and>
   (\<forall>e. open_rb w p = Inl e \<and> \<not> is_IOError e \<longrightarrow> is_elf w p = Inl e)"
  by (simp add: is_elf_def elf_magic_def)

theorem is_elf_cases_witness:
  "open_rb world_libs [drive, ''sdk'', ''gone.o''] = Inl FileNotFoundError \<and>
   is_IOError FileNotFoundError \<and>
   is_elf world_libs [drive, ''sdk'', ''gone.o''] = Inr False \<and>
   open_rb world_libs [drive, ''sdk''] = Inl PermissionError \<and>
   is_elf world_libs [drive, ''sdk''] = Inr False \<and>
   is_elf world_libs [drive, ''sdk'', ''prog.bin''] = Inr True \<and>
   is_elf world_libs [drive, ''sdk'', ''note.txt''] = Inr False \<and>
   open_rb world_libs [drive, ''sdk'', [CHR ''a'', CHR 0x00, CHR ''b'']] = Inl ValueError \<and>
   \<not> is_IOError ValueError \<and>
   is_elf world_libs [drive, ''sdk'', [CHR ''a'', CHR 0x00, CHR ''b'']] = Inl ValueError"
proof -
  have a: "open_rb world_libs [drive, ''sdk'', ''gone.o''] = Inl FileNotFoundError"
    by (simp add: ev world_libs_def)
  have b: "open_rb world_libs [drive, ''sdk''] = Inl PermissionError"
    by (simp add: ev world_libs_def)
  have c: "open_rb world_libs [drive, ''sdk'', ''prog.bin''] =
      Inr ([CHR 0x7F, CHR ''E'', CHR ''L'', CHR ''F''] @ ''code'')"
    by (simp add: ev world_libs_def)
  have d: "open_rb world_libs [drive, ''sdk'', ''note.txt''] = Inr ''ELF''"
    by (simp add: ev world_libs_def)
  have n: "open_rb world_libs [drive, ''sdk'', [CHR ''a'', CHR 0x00, CHR ''b'']] = Inl ValueError"
    by (simp add: ev world_libs_def)
  from is_elf_cases [of world_libs "[drive, ''sdk'', ''gone.o'']"] a
  have 1: "is_elf world_libs [drive, ''sdk'', ''gone.o''] = Inr False" by simp
  from is_elf_cases [of world_libs "[drive, ''sdk'']"] b
  have 2: "is_elf world_libs [drive, ''sdk''] = Inr False" by simp
  from is_elf_cases [of world_libs "[drive, ''sdk'', ''prog.bin'']"] c
  have 3: "is_elf world_libs [drive, ''sdk'', ''prog.bin''] = Inr True" by simp
  from is_elf_cases [of world_libs "[drive, ''sdk'', ''note.txt'']"] d
  have 4: "is_elf world_libs [drive, ''sdk'', ''note.txt''] = Inr False" by simp
  from is_elf_cases [of world_libs "[drive, ''sdk'', [CHR ''a'', CHR 0x00, CHR ''b'']]"] n
  have 5: "is_elf world_libs [drive, ''sdk'', [CHR ''a'', CHR 0x00, CHR ''b'']]
      = Inl ValueError" by simp
  from 1 2 3 4 5 a b n show ?thesis by simp
qed

section \<open>The copy mode, the move loop and the work directory\<close>

lemmas io_defs = bnd_def ret_def raise_def get_def lift_def print_def

lemma tool_missing_copy: "tool_missing w ''copy'' = False"
  by (simp add: tool_missing_def tools_get_def)

lemma name_not_anchor: "\<not> is_anchor (name p)"
  by (simp add: name_def is_anchor_def)

lemma full_snoc: "\<not> is_anchor s \<Longrightarrow> full w (d @ [s]) = full w d @ [s]"
  by (cases d) (simp_all add: full_def is_absolute_def)

lemma full_upd [simp]:
  "full (w\<lparr>out := x\<rparr>) p = full w p"
  "full (w\<lparr>procs := y\<rparr>) p = full w p"
  "full (w\<lparr>tools := z\<rparr>) p = full w p"
  "full (w\<lparr>fs := al\<rparr>) p = full w p"
  by (simp_all add: full_def)

lemma node_at_upd [simp]:
  "node_at (w\<lparr>out := x\<rparr>) p = node_at w p"
  "node_at (w\<lparr>procs := y\<rparr>) p = node_at w p"
  "node_at (w\<lparr>tools := z\<rparr>) p = node_at w p"
  by (simp_all add: node_at_def)

lemma exists_upd [simp]:
  "exists (w\<lparr>out := x\<rparr>) p = exists w p"
  "exists (w\<lparr>procs := y\<rparr>) p = exists w p"
  "exists (w\<lparr>tools := z\<rparr>) p = exists w p"
  by (simp_all add: exists_def)

lemma is_dir_upd [simp]:
  "is_dir (w\<lparr>out := x\<rparr>) p = is_dir w p"
  "is_dir (w\<lparr>procs := y\<rparr>) p = is_dir w p"
  "is_dir (w\<lparr>tools := z\<rparr>) p = is_dir w p"
  by (simp_all add: is_dir_def)

lemma copy_existing:
  assumes "exists w (child dst_dir (name src))"
  shows "extract_or_copy env ''copy'' src dst_dir w =
    (Inr 0, w\<lparr>out := out w @ [''[WARN] destination already exists: ''
        @ path_str (child dst_dir (name src)) @ '' - skipping copy'']\<rparr>)"
  using assms by (simp add: extract_or_copy_def tool_missing_copy io_defs)

lemma copy_fresh:
  assumes f: "node_at w src = Some (File bs ro)" and d: "is_dir w dst_dir"
    and n: "\<not> exists w (child dst_dir (name src))"
  shows "extract_or_copy env ''copy'' src dst_dir w =
    (Inr 0, fs_put (full w dst_dir @ [name src]) (File bs ro)
       (w\<lparr>out := out w @ [''[COPY] '' @ path_str src @ [CHR 0x09] @ ''-> ''
        @ path_str (child dst_dir (name src))]\<rparr>))"
proof -
  from d n have ne: "name src \<noteq> []"
    by (auto simp: child_def exists_def is_dir_def)
  then have c: "child dst_dir (name src) = dst_dir @ [name src]"
    by (simp add: child_def name_not_anchor)
  have t: "full w (dst_dir @ [name src]) = full w dst_dir @ [name src]"
    by (rule full_snoc) (rule name_not_anchor)
  from n c t have none: "map_of (fs w) (full w dst_dir @ [name src]) = None"
    by (simp add: exists_def node_at_def)
  with f have neq: "full w dst_dir @ [name src] \<noteq> full w src"
    by (auto simp: node_at_def)
  from d have par: "map_of (fs w) (full w dst_dir) = Some Dir"
    by (simp add: is_dir_def node_at_def)
  let ?w = "w\<lparr>out := out w @ [''[COPY] '' @ path_str src @ [CHR 0x09] @ ''-> ''
        @ path_str (child dst_dir (name src))]\<rparr>"
  from none t have nd: "\<not> is_dir w (dst_dir @ [name src])"
    by (simp add: is_dir_def node_at_def)
  have "copy2 src (dst_dir @ [name src]) ?w =
      (Inr (), fs_put (full w dst_dir @ [name src]) (File bs ro) ?w)"
    using f none neq par t nd
    by (simp add: copy2_def)
  then show ?thesis using n c
    by (simp add: extract_or_copy_def tool_missing_copy io_defs Let_def)
qed


lemma relocate_other:
  assumes "\<not> is_prefix a t" and "\<not> is_prefix b t"
  shows "map_of (relocate a b al) t = map_of al t"
proof -
  from assms(2) have tb: "t \<noteq> b" by (auto simp: is_prefix_def)
  have pre: "is_prefix b (b @ r)" for r by (simp add: is_prefix_def)
  show ?thesis
  proof (induction al)
    case Nil
    show ?case by (simp add: relocate_def)
  next
    case (Cons x al)
    obtain p n where x: "x = (p, n)" by (cases x)
    from Cons have ih: "map_of (relocate a b al) t = map_of al t" .
    have step: "relocate a b ((p, n) # al) =
        (if p \<noteq> b then [(if is_prefix a p then b @ drop (length a) p else p, n)] else [])
        @ relocate a b al"
      by (simp add: relocate_def)
    show ?case
      using ih assms tb pre unfolding x step
      by auto
  qed
qed

lemma prefix_snoc:
  assumes "is_prefix a (d @ [y])" and "a \<noteq> []" and "y \<noteq> last a"
  shows "is_prefix a (d @ [last a])"
proof (cases "length a \<le> length d")
  case True
  with assms(1) show ?thesis by (simp add: is_prefix_def)
next
  case False
  with assms(1) have "a = d @ [y]" by (simp add: is_prefix_def)
  with assms(3) show ?thesis by simp
qed

lemma last_full: "e \<noteq> [] \<Longrightarrow> last (full w e) = last e"
  by (simp add: full_def)

lemma full_ne: "e \<noteq> [] \<Longrightarrow> full w e \<noteq> []"
  by (simp add: full_def)

lemma move_result:
  assumes "move src dst w = (r, w')"
  shows "cwd w' = cwd w \<and> out w' = out w \<and> procs w' = procs w \<and> tools w' = tools w \<and>
    (fs w' = fs w \<or>
     r = Inr () \<and> \<not> is_prefix (full w src) (full w (if is_dir w dst then child dst (name src) else dst)) \<and>
     fs w' = relocate (full w src) (full w (if is_dir w dst then child dst (name src) else dst)) (fs w))"
  using assms
  by (auto simp: move_def Let_def split: if_splits option.splits node.splits bool.splits)


lemma name_valid: "e \<noteq> [] \<Longrightarrow> valid_name (last e) \<Longrightarrow> name e = last e"
  by (simp add: name_def valid_name_def)

lemma child_valid: "valid_name x \<Longrightarrow> child d x = d @ [x]"
  by (simp add: child_def valid_name_def)

lemma full_child: "valid_name x \<Longrightarrow> full w (d @ [x]) = full w d @ [x]"
  by (rule full_snoc) (simp add: valid_name_def)

lemma body_cases:
  assumes v: "e \<noteq> []" "valid_name (last e)"
    and st: "move_tmp_files_body dst_dir e k w = (r, w')"
  shows "cwd w' = cwd w \<and> procs w' = procs w \<and>
    (exists w (dst_dir @ [last e]) \<and> r = Inr k \<and> fs w' = fs w \<and>
       out w' = out w @ [''[WARN] extraction destination already exists: ''
                          @ path_str (dst_dir @ [last e])]
     \<or> \<not> exists w (dst_dir @ [last e]) \<and> out w' = out w \<and>
       (r = Inr (Suc k) \<or> (\<exists>err. r = Inl err)) \<and>
       (fs w' = fs w \<or>
        \<not> is_prefix (full w e) (full w dst_dir @ [last e]) \<and>
        fs w' = relocate (full w e) (full w dst_dir @ [last e]) (fs w)))"
proof (cases "exists w (dst_dir @ [last e])")
  case True
  with st v show ?thesis
    by (auto simp: move_tmp_files_body_def name_valid child_valid io_defs)
next
  case False
  then have nd: "\<not> is_dir w (dst_dir @ [last e])" by (auto simp: exists_def is_dir_def)
  obtain r0 w0 where m: "move e (dst_dir @ [last e]) w = (r0, w0)" by (cases "move e (dst_dir @ [last e]) w")
  from move_result [OF m] nd v(2)
  have mr: "cwd w0 = cwd w \<and> out w0 = out w \<and> procs w0 = procs w \<and>
    (fs w0 = fs w \<or> r0 = Inr () \<and> \<not> is_prefix (full w e) (full w dst_dir @ [last e]) \<and>
     fs w0 = relocate (full w e) (full w dst_dir @ [last e]) (fs w))"
    by (simp add: full_child)
  from st False v m have "(r, w') = (case r0 of Inl err \<Rightarrow> (Inl err, w0) | Inr _ \<Rightarrow> (Inr (Suc k), w0))"
    by (cases r0) (simp_all add: move_tmp_files_body_def name_valid child_valid io_defs)
  with mr False show ?thesis by (cases r0) auto
qed

lemma body_preserves:
  assumes v: "e \<noteq> []" "valid_name (last e)"
    and st: "move_tmp_files_body dst_dir e k w = (r, w')"
    and t: "map_of (fs w) (full w dst_dir @ [y]) = Some n"
  shows "map_of (fs w') (full w dst_dir @ [y]) = Some n"
proof -
  let ?D = "full w dst_dir"
  from body_cases [OF v st]
  consider "fs w' = fs w"
    | "\<not> exists w (dst_dir @ [last e])" "\<not> is_prefix (full w e) (?D @ [last e])"
      "fs w' = relocate (full w e) (?D @ [last e]) (fs w)"
    by blast
  then show ?thesis
  proof cases
    case 1
    with t show ?thesis by simp
  next
    case 2
    from 2(1) v(2) have "map_of (fs w) (?D @ [last e]) = None"
      by (simp add: exists_def node_at_def full_child)
    with t have ne: "y \<noteq> last e" by auto
    then have a: "\<not> is_prefix (?D @ [last e]) (?D @ [y])"
      by (simp add: is_prefix_def)
    have b: "\<not> is_prefix (full w e) (?D @ [y])"
    proof
      assume "is_prefix (full w e) (?D @ [y])"
      then have "is_prefix (full w e) (?D @ [last (full w e)])"
        using v(1) ne by (intro prefix_snoc) (simp_all add: last_full full_ne)
      with 2(2) v(1) show False by (simp add: last_full)
    qed
    from relocate_other [OF b a] 2(3) t show ?thesis by simp
  qed
qed

lemma fold_preserves:
  assumes "\<forall>e \<in> set es. e \<noteq> [] \<and> valid_name (last e)"
    and "fold_io (move_tmp_files_body dst_dir) es k w = (r, w')"
    and "map_of (fs w) (full w dst_dir @ [y]) = Some n"
  shows "map_of (fs w') (full w dst_dir @ [y]) = Some n \<and> cwd w' = cwd w \<and> procs w' = procs w"
  using assms
proof (induction es arbitrary: k w)
  case Nil
  then show ?case by simp
next
  case (Cons e es)
  obtain r1 w1 where s1: "move_tmp_files_body dst_dir e k w = (r1, w1)"
    by (cases "move_tmp_files_body dst_dir e k w")
  from Cons.prems(1) have v: "e \<noteq> []" "valid_name (last e)" by simp_all
  from body_preserves [OF v s1 Cons.prems(3)]
  have p1: "map_of (fs w1) (full w dst_dir @ [y]) = Some n" .
  from body_cases [OF v s1] have c1: "cwd w1 = cwd w" "procs w1 = procs w" by simp_all
  then have f1: "full w1 dst_dir = full w dst_dir" by (simp add: full_def)
  show ?case
  proof (cases r1)
    case (Inl err)
    with Cons.prems(2) s1 have "w' = w1" by simp
    with p1 c1 show ?thesis by simp
  next
    case (Inr k1)
    with Cons.prems(2) s1 have "fold_io (move_tmp_files_body dst_dir) es k1 w1 = (r, w')"
      by simp
    from Cons.IH [OF _ this] Cons.prems(1) p1 f1 c1 show ?thesis by simp
  qed
qed

lemma fold_counts:
  assumes "\<forall>e \<in> set es. e \<noteq> [] \<and> valid_name (last e)"
    and "fold_io (move_tmp_files_body dst_dir) es k w = (Inr k', w')"
  shows "\<exists>skipped. out w' = out w @ map (warn_line dst_dir) skipped \<and>
      set skipped \<subseteq> set es \<and> length skipped + k' = k + length es \<and>
      (\<forall>e \<in> set es. exists w (child dst_dir (name e)) \<longrightarrow> e \<in> set skipped)"
  using assms
proof (induction es arbitrary: k w)
  case Nil
  then show ?case by simp
next
  case (Cons e es)
  obtain r1 w1 where s1: "move_tmp_files_body dst_dir e k w = (r1, w1)"
    by (cases "move_tmp_files_body dst_dir e k w")
  from Cons.prems(1) have v: "e \<noteq> []" "valid_name (last e)" by simp_all
  from Cons.prems(2) s1 obtain k1 where r1: "r1 = Inr k1"
    and rest: "fold_io (move_tmp_files_body dst_dir) es k1 w1 = (Inr k', w')"
    by (cases r1) auto
  from Cons.prems(1) have ves: "\<forall>e \<in> set es. e \<noteq> [] \<and> valid_name (last e)" by simp
  from Cons.IH [OF ves rest] obtain skipped where
    sk: "out w' = out w1 @ map (warn_line dst_dir) skipped" "set skipped \<subseteq> set es"
      "length skipped + k' = k1 + length es"
      "\<forall>e \<in> set es. exists w1 (child dst_dir (name e)) \<longrightarrow> e \<in> set skipped"
    by blast
  from body_cases [OF v s1] have c1: "cwd w1 = cwd w" by simp
  have keep: "exists w1 (child dst_dir (name f))"
    if f: "f \<in> set es" and ex: "exists w (child dst_dir (name f))" for f
  proof -
    from f ves have vf: "f \<noteq> []" "valid_name (last f)" by simp_all
    from ex vf obtain n where "map_of (fs w) (full w dst_dir @ [last f]) = Some n"
      by (auto simp: exists_def node_at_def name_valid child_valid full_child)
    from c1 have "full w1 = full w" by (simp add: full_def fun_eq_iff)
    with body_preserves [OF v s1 \<open>map_of (fs w) (full w dst_dir @ [last f]) = Some n\<close>] vf
    show ?thesis
      by (simp add: exists_def node_at_def name_valid child_valid full_child)
  qed
  have wl: "warn_line dst_dir e =
      ''[WARN] extraction destination already exists: '' @ path_str (dst_dir @ [last e])"
    using v by (simp add: warn_line_def name_valid child_valid)
  from body_cases [OF v s1] r1
  consider "exists w (dst_dir @ [last e])" "k1 = k" "out w1 = out w @ [warn_line dst_dir e]"
    | "\<not> exists w (dst_dir @ [last e])" "k1 = Suc k" "out w1 = out w"
    by (auto simp: wl)
  then show ?case
  proof cases
    case 1
    with sk keep show ?thesis
      by (intro exI [of _ "e # skipped"]) auto
  next
    case 2
    with sk keep v show ?thesis
      by (intro exI [of _ skipped]) (auto simp: name_valid child_valid)
  qed
qed


lemma iterdir_valid:
  "iterdir w d = Inr files \<Longrightarrow> \<forall>e \<in> set files. e \<noteq> [] \<and> valid_name (last e)"
  by (auto simp: iterdir_def split: option.splits node.splits)

lemma move_tmp_files_keeps:
  assumes "move_tmp_files tmpdir dst_dir w = (r, w')" and "iterdir w tmpdir = Inr files"
    and "f \<in> set files" and "exists w (child dst_dir (name f))"
  shows "node_at w' (child dst_dir (name f)) = node_at w (child dst_dir (name f))"
proof -
  from iterdir_valid [OF assms(2)] assms(3) have v: "f \<noteq> []" "valid_name (last f)" by simp_all
  from assms(4) v obtain n where n: "map_of (fs w) (full w dst_dir @ [last f]) = Some n"
    by (auto simp: exists_def node_at_def name_valid child_valid full_child)
  from assms(1,2) have "fold_io (move_tmp_files_body dst_dir) files 0 w = (r, w')"
    by (simp add: move_tmp_files_def io_defs)
  from fold_preserves [OF iterdir_valid [OF assms(2)] this n]
  have k: "map_of (fs w') (full w dst_dir @ [last f]) = Some n" and c: "cwd w' = cwd w"
    by simp_all
  from c have "full w' = full w" by (simp add: full_def fun_eq_iff)
  with k n v show ?thesis
    by (simp add: node_at_def name_valid child_valid full_child)
qed

text \<open>
  Claim C2. In copy mode, when the target exists, \<^verbatim>\<open>extract_or_copy\<close> returns with
  the file system as it was and one more line of output, the warning. For
  \<^verbatim>\<open>move_tmp_files\<close>, however it ends, every target that existed before has the node it
  had; and when it returns \<^verbatim>\<open>num_moved\<close>, its output is one warning for each file of
  a list \<open>skipped\<close> that holds every file whose target existed, and \<^verbatim>\<open>num_moved\<close>
  counts the files of the directory that are not in that list.
\<close>

theorem no_overwrite:
  "(exists w (child dst_dir (name src)) \<longrightarrow>
      (\<exists>w'. extract_or_copy env ''copy'' src dst_dir w = (Inr 0, w') \<and>
         fs w' = fs w \<and>
         out w' = out w @ [''[WARN] destination already exists: ''
                           @ path_str (child dst_dir (name src)) @ '' - skipping copy''])) \<and>
   (\<forall>r w' files. move_tmp_files tmpdir dst_dir w = (r, w') \<and> iterdir w tmpdir = Inr files \<longrightarrow>
      (\<forall>f \<in> set files. exists w (child dst_dir (name f)) \<longrightarrow>
         node_at w' (child dst_dir (name f)) = node_at w (child dst_dir (name f))) \<and>
      (\<forall>num_moved. r = Inr num_moved \<longrightarrow>
         (\<exists>skipped. out w' = out w @ map (warn_line dst_dir) skipped \<and>
            set skipped \<subseteq> set files \<and>
            length skipped + num_moved = length files \<and>
            (\<forall>f \<in> set files. exists w (child dst_dir (name f)) \<longrightarrow> f \<in> set skipped))))"
proof (intro conjI impI allI ballI)
  assume "exists w (child dst_dir (name src))"
  from copy_existing [OF this, of env]
  show "\<exists>w'. extract_or_copy env ''copy'' src dst_dir w = (Inr 0, w') \<and> fs w' = fs w \<and>
         out w' = out w @ [''[WARN] destination already exists: ''
                           @ path_str (child dst_dir (name src)) @ '' - skipping copy'']"
    by simp
next
  fix r w' files f
  assume "move_tmp_files tmpdir dst_dir w = (r, w') \<and> iterdir w tmpdir = Inr files"
    and "f \<in> set files" and "exists w (child dst_dir (name f))"
  then show "node_at w' (child dst_dir (name f)) = node_at w (child dst_dir (name f))"
    using move_tmp_files_keeps by blast
next
  fix r w' files num_moved
  assume a: "move_tmp_files tmpdir dst_dir w = (r, w') \<and> iterdir w tmpdir = Inr files"
    and r: "r = Inr num_moved"
  then have fo: "fold_io (move_tmp_files_body dst_dir) files 0 w = (Inr num_moved, w')"
    by (auto simp: move_tmp_files_def io_defs)
  from a have it: "iterdir w tmpdir = Inr files" by simp
  from fold_counts [OF iterdir_valid [OF it] fo]
  show "\<exists>skipped. out w' = out w @ map (warn_line dst_dir) skipped \<and>
            set skipped \<subseteq> set files \<and>
            length skipped + num_moved = length files \<and>
            (\<forall>f \<in> set files. exists w (child dst_dir (name f)) \<longrightarrow> f \<in> set skipped)"
    by simp
qed

lemma count_key:
  "distinct (map fst al) \<Longrightarrow> map_of al k = Some v \<Longrightarrow> length [e \<leftarrow> al. fst e = k] = 1"
proof (induction al)
  case Nil
  then show ?case by simp
next
  case (Cons x al)
  show ?case
  proof (cases "fst x = k")
    case True
    with Cons.prems(1) have "k \<notin> fst ` set al" by auto
    then have "\<forall>e \<in> set al. fst e \<noteq> k" by force
    then have "[e \<leftarrow> al. fst e = k] = []"
      by (simp add: filter_empty_conv)
    with True show ?thesis by simp
  next
    case False
    with Cons show ?thesis by (cases x) auto
  qed
qed

text \<open>
  Claim C7. For a regular file and an existing destination directory, the first call
  in copy mode returns, and the second returns 0 too, with the file system and the
  process log of the first and one more line of output, the warning. The target is
  then one entry of the file system, with the node of the source when the first call
  created it.
\<close>

theorem copy_twice:
  assumes "is_file w src" and "is_dir w dst_dir" and "distinct (map fst (fs w))"
  shows "\<exists>w1 w2.
      extract_or_copy env ''copy'' src dst_dir w = (Inr 0, w1) \<and>
      extract_or_copy env ''copy'' src dst_dir w1 = (Inr 0, w2) \<and>
      fs w2 = fs w1 \<and> procs w2 = procs w1 \<and>
      out w2 = out w1 @ [''[WARN] destination already exists: ''
                         @ path_str (child dst_dir (name src)) @ '' - skipping copy''] \<and>
      length [e \<leftarrow> fs w2. fst e = full w (child dst_dir (name src))] = 1 \<and>
      (\<not> exists w (child dst_dir (name src)) \<longrightarrow>
         node_at w2 (child dst_dir (name src)) = node_at w src)"
proof -
  let ?dst = "child dst_dir (name src)"
  obtain r1 w1 where c1: "extract_or_copy env ''copy'' src dst_dir w = (r1, w1)"
    by (cases "extract_or_copy env ''copy'' src dst_dir w")
  have first: "r1 = Inr 0 \<and> cwd w1 = cwd w \<and> distinct (map fst (fs w1)) \<and>
      map_of (fs w1) (full w ?dst) \<noteq> None \<and>
      (\<not> exists w ?dst \<longrightarrow> map_of (fs w1) (full w ?dst) = node_at w src)"
  proof (cases "exists w ?dst")
    case True
    from copy_existing [OF True, of env] c1 assms(3) True show ?thesis
      by (auto simp: exists_def node_at_def)
  next
    case False
    from assms(1) obtain bs ro where f: "node_at w src = Some (File bs ro)"
      by (auto simp: is_file_def split: option.splits node.splits)
    from assms(2) False have ne: "name src \<noteq> []"
      by (auto simp: child_def exists_def is_dir_def)
    then have t: "full w ?dst = full w dst_dir @ [name src]"
      by (simp add: child_def name_not_anchor full_snoc)
    from copy_fresh [OF f assms(2) False, of env] c1 assms(3) f t show ?thesis
      by (auto simp: fs_put_def distinct_update update_conv')
  qed
  from first have r1: "r1 = Inr 0" and d: "distinct (map fst (fs w1))"
    and cw: "cwd w1 = cwd w" and nn: "map_of (fs w1) (full w ?dst) \<noteq> None"
    and cp: "\<not> exists w ?dst \<longrightarrow> map_of (fs w1) (full w ?dst) = node_at w src"
    by blast+
  from cw have same: "full w1 = full w" by (simp add: full_def fun_eq_iff)
  with nn have ex1: "exists w1 ?dst" by (simp add: exists_def node_at_def)
  let ?w2 = "w1\<lparr>out := out w1 @ [''[WARN] destination already exists: ''
                         @ path_str ?dst @ '' - skipping copy'']\<rparr>"
  from copy_existing [OF ex1, of env]
  have c2: "extract_or_copy env ''copy'' src dst_dir w1 = (Inr 0, ?w2)" .
  from nn obtain v where v: "map_of (fs w1) (full w ?dst) = Some v" by auto
  from count_key [OF d v] have one: "length [e \<leftarrow> fs w1. fst e = full w ?dst] = 1" .
  have n2: "node_at ?w2 ?dst = map_of (fs w1) (full w ?dst)"
    using same by (simp add: node_at_def)
  show ?thesis
    apply (rule exI [of _ w1])
    apply (rule exI [of _ ?w2])
    using c1 r1 c2 one cp n2 apply simp
    done
qed


lemma resolve_tool_result:
  "tools_get (tools w) tool \<noteq> None \<Longrightarrow> \<exists>T. resolve_tool sdk_root tool w = (Inr (), w\<lparr>tools := T\<rparr>)"
  by (auto simp: resolve_tool_def Let_def)

lemma resolve_tools_result:
  "\<exists>T. for_each (resolve_tool sdk_root) tool_names w = (Inr (), w\<lparr>tools := T\<rparr>)"
proof -
  obtain T1 where 1: "resolve_tool sdk_root ''ar'' w = (Inr (), w\<lparr>tools := T1\<rparr>)"
    using resolve_tool_result [of w "''ar''" sdk_root] by (auto simp: tools_get_def)
  obtain T2 where 2: "resolve_tool sdk_root ''libsplit'' (w\<lparr>tools := T1\<rparr>) = (Inr (), w\<lparr>tools := T2\<rparr>)"
    using resolve_tool_result [of "w\<lparr>tools := T1\<rparr>" "''libsplit''" sdk_root]
    by (auto simp: tools_get_def)
  obtain T3 where 3: "resolve_tool sdk_root ''elfcnv'' (w\<lparr>tools := T2\<rparr>) = (Inr (), w\<lparr>tools := T3\<rparr>)"
    using resolve_tool_result [of "w\<lparr>tools := T2\<rparr>" "''elfcnv''" sdk_root]
    by (auto simp: tools_get_def)
  from 1 2 3 have "for_each (resolve_tool sdk_root) tool_names w = (Inr (), w\<lparr>tools := T3\<rparr>)"
    by (simp add: tool_names_def)
  then show ?thesis by (rule exI)
qed

lemma prepare_existing:
  assumes "\<not> DEBUG env" and "exists w project_root"
  shows "\<exists>T. prepare env sdk_root project_root w =
      (Inr False, w\<lparr>tools := T, out := out w @ [path_str project_root
         @ '' already exists. Remove it before running the script.'']\<rparr>)"
proof -
  obtain T where "for_each (resolve_tool sdk_root) tool_names w = (Inr (), w\<lparr>tools := T\<rparr>)"
    using resolve_tools_result by blast
  then have "prepare env sdk_root project_root w =
      (Inr False, w\<lparr>tools := T, out := out w @ [path_str project_root
         @ '' already exists. Remove it before running the script.'']\<rparr>)"
    using assms by (simp add: prepare_def io_defs)
  then show ?thesis by (rule exI)
qed

lemma build_fidb_continue:
  assumes "prepare env (full w sdk_root) (Path_of (''fid_work_'' @ fidb_name)) w = (Inr True, ws)"
  shows "build_fidb env fidb_name sdk_root w =
      build_tree env fidb_name (full w sdk_root) (Path_of (''fid_work_'' @ fidb_name)) ws"
  using assms by (simp add: build_fidb_def io_defs Let_def)

lemma build_fidb_stop:
  assumes "prepare env (full w sdk_root) (Path_of (''fid_work_'' @ fidb_name)) w = (Inr False, ws)"
  shows "build_fidb env fidb_name sdk_root w = (Inr (), ws)"
  using assms by (simp add: build_fidb_def io_defs Let_def)

lemma build_tree_zero:
  assumes "walk env sdk_root project_root ws = (Inr (0, compilers), w1)"
  shows "build_tree env fidb_name sdk_root project_root ws =
      (Inl (SystemExit 1),
       w1\<lparr>out := out w1 @ [''No SDK files were copied. Check filters or paths.'']\<rparr>)"
  using assms by (simp add: build_tree_def io_defs)

lemma build_fidb_work_dir_exists:
  assumes "\<not> DEBUG env" and "exists w (Path_of (''fid_work_'' @ fidb_name))"
  shows "\<exists>w'. build_fidb env fidb_name sdk_root w = (Inr (), w') \<and>
      fs w' = fs w \<and> procs w' = procs w \<and> cwd w' = cwd w \<and>
      out w' = out w @ [path_str (Path_of (''fid_work_'' @ fidb_name))
                        @ '' already exists. Remove it before running the script.'']"
proof -
  from prepare_existing [OF assms] obtain T where
    "prepare env (full w sdk_root) (Path_of (''fid_work_'' @ fidb_name)) w =
      (Inr False, w\<lparr>tools := T, out := out w @ [path_str (Path_of (''fid_work_'' @ fidb_name))
         @ '' already exists. Remove it before running the script.'']\<rparr>)"
    by blast
  from build_fidb_stop [OF this] show ?thesis by simp
qed

lemma script_unfold:
  assumes "exists w (GHIDRA_HOME env @ [''support'', ''analyzeHeadless.bat''])"
    and "is_dir w [''E:'' @ [backslash], ''Games'', ''Dreamcast'', ''Samba2K_hack'', ''sdk'']"
  shows "script env w = build_fidb env ''dc_sdk_r11'' [''r11'']
      (w\<lparr>cwd := full w [''E:'' @ [backslash], ''Games'', ''Dreamcast'', ''Samba2K_hack'', ''sdk'']\<rparr>)"
  using assms by (simp add: script_def module_level_def chdir_def io_defs)

text \<open>
  Claim C3, amended. In a real run whose work directory exists, \<^verbatim>\<open>build_fidb\<close>
  returns to its caller (no exception, no \<^verbatim>\<open>exit\<close>; a script that ends so has status
  0) with the file system, the process log and the working directory as they were: it
  has created no directory, copied or extracted no file and started no program, and
  has printed the message that the directory exists.
\<close>

theorem build_fidb_existing_work_dir:
  assumes "\<not> DEBUG env" and "exists w (Path_of (''fid_work_'' @ fidb_name))"
  shows "\<exists>w'. build_fidb env fidb_name sdk_root w = (Inr (), w') \<and>
      exit_status (fst (build_fidb env fidb_name sdk_root w)) = 0 \<and>
      fs w' = fs w \<and> procs w' = procs w \<and> cwd w' = cwd w \<and>
      out w' = out w @ [path_str (Path_of (''fid_work_'' @ fidb_name))
                        @ '' already exists. Remove it before running the script.'']"
proof -
  from build_fidb_work_dir_exists [OF assms, of sdk_root] obtain w' where
    r: "build_fidb env fidb_name sdk_root w = (Inr (), w')"
    and k: "fs w' = fs w" "procs w' = procs w" "cwd w' = cwd w"
      "out w' = out w @ [path_str (Path_of (''fid_work_'' @ fidb_name))
                        @ '' already exists. Remove it before running the script.'']"
    by blast
  from r have "exit_status (fst (build_fidb env fidb_name sdk_root w)) = 0" by simp
  with r k show ?thesis by blast
qed

theorem no_overwrite_witness:
  "exists world_tmp [drive, ''dst'', ''a.o''] \<and>
   fst (extract_or_copy env_real ''copy'' [drive, ''src'', ''a.o''] [drive, ''dst''] world_tmp)
     = Inr 0 \<and>
   fs (snd (extract_or_copy env_real ''copy'' [drive, ''src'', ''a.o''] [drive, ''dst'']
              world_tmp)) = fs world_tmp \<and>
   fst (move_tmp_files [drive, ''tmp''] [drive, ''dst''] world_tmp) = Inr 1 \<and>
   node_at (snd (move_tmp_files [drive, ''tmp''] [drive, ''dst''] world_tmp))
     [drive, ''dst'', ''a.o''] = Some (File ''old a'' False) \<and>
   node_at (snd (move_tmp_files [drive, ''tmp''] [drive, ''dst''] world_tmp))
     [drive, ''dst'', ''b.o''] = Some (File ''new b'' False)"
proof -
  let ?dst = "[drive, ''dst'']" and ?tmp = "[drive, ''tmp'']"
  let ?a = "[drive, ''tmp'', ''a.o'']"
  have c: "child ?dst (name [drive, ''src'', ''a.o'']) = [drive, ''dst'', ''a.o'']"
    "child ?dst (name ?a) = [drive, ''dst'', ''a.o'']"
    by code_simp+
  have e: "exists world_tmp [drive, ''dst'', ''a.o'']" by code_simp
  have old: "node_at world_tmp [drive, ''dst'', ''a.o''] = Some (File ''old a'' False)"
    by code_simp
  have it: "iterdir world_tmp ?tmp = Inr [?a, [drive, ''tmp'', ''b.o'']]" by code_simp
  have r: "fst (move_tmp_files ?tmp ?dst world_tmp) = Inr 1" by code_simp
  have b: "node_at (snd (move_tmp_files ?tmp ?dst world_tmp)) [drive, ''dst'', ''b.o'']
      = Some (File ''new b'' False)" by code_simp
  obtain w' where m: "move_tmp_files ?tmp ?dst world_tmp = (Inr 1, w')"
    using r by (cases "move_tmp_files ?tmp ?dst world_tmp") simp
  note main = no_overwrite [of world_tmp ?dst "[drive, ''src'', ''a.o'']" env_real ?tmp]
  from main e c(1) have 1:
    "fst (extract_or_copy env_real ''copy'' [drive, ''src'', ''a.o''] ?dst world_tmp) = Inr 0 \<and>
     fs (snd (extract_or_copy env_real ''copy'' [drive, ''src'', ''a.o''] ?dst world_tmp))
       = fs world_tmp"
    by auto
  from main m it have "\<forall>f \<in> set [?a, [drive, ''tmp'', ''b.o'']].
      exists world_tmp (child ?dst (name f)) \<longrightarrow>
      node_at w' (child ?dst (name f)) = node_at world_tmp (child ?dst (name f))"
    by blast
  with e c(2) old have 2: "node_at w' [drive, ''dst'', ''a.o''] = Some (File ''old a'' False)"
    by simp
  from e 1 r 2 b m show ?thesis by simp
qed

theorem copy_twice_witness:
  "is_file world_tmp [drive, ''src'', ''c.o''] \<and> is_dir world_tmp [drive, ''dst''] \<and>
   distinct (map fst (fs world_tmp)) \<and>
   (\<exists>w1 w2.
      extract_or_copy env_real ''copy'' [drive, ''src'', ''c.o''] [drive, ''dst''] world_tmp
        = (Inr 0, w1) \<and>
      extract_or_copy env_real ''copy'' [drive, ''src'', ''c.o''] [drive, ''dst''] w1
        = (Inr 0, w2) \<and>
      fs w2 = fs w1 \<and>
      length [e \<leftarrow> fs w2. fst e = [drive, ''dst'', ''c.o'']] = 1 \<and>
      node_at w2 [drive, ''dst'', ''c.o''] = Some (File ''src c'' False))"
proof -
  have f: "is_file world_tmp [drive, ''src'', ''c.o'']" by code_simp
  have d: "is_dir world_tmp [drive, ''dst'']" by code_simp
  have k: "distinct (map fst (fs world_tmp))" by code_simp
  have c: "child [drive, ''dst''] (name [drive, ''src'', ''c.o'']) = [drive, ''dst'', ''c.o'']"
    "full world_tmp [drive, ''dst'', ''c.o''] = [drive, ''dst'', ''c.o'']"
    "\<not> exists world_tmp [drive, ''dst'', ''c.o'']"
    "node_at world_tmp [drive, ''src'', ''c.o''] = Some (File ''src c'' False)"
    by code_simp+
  from copy_twice [OF f d k, of env_real] c f d k show ?thesis by auto
qed

text \<open>
  Claim C3 says that the abort on an existing work directory ends the run with a
  status other than 0. Line 251 is a \<^verbatim>\<open>return\<close>: with the work directory of a first run
  in place, the script ends normally, with status 0.
\<close>

theorem existing_work_dir_exit_status_counterexample:
  "\<not> DEBUG env_real \<and>
   exists (world_rerun\<lparr>cwd := sdk_dir\<rparr>) (Path_of ''fid_work_dc_sdk_r11'') \<and>
   script env_real world_rerun =
     build_fidb env_real ''dc_sdk_r11'' [''r11''] (world_rerun\<lparr>cwd := sdk_dir\<rparr>) \<and>
   fst (script env_real world_rerun) = Inr () \<and>
   exit_status (fst (script env_real world_rerun)) = 0"
proof -
  have a: "\<not> DEBUG env_real" by code_simp
  have b: "exists (world_rerun\<lparr>cwd := sdk_dir\<rparr>) (Path_of (''fid_work_'' @ ''dc_sdk_r11''))"
    by code_simp
  have c: "exists world_rerun (GHIDRA_HOME env_real @ [''support'', ''analyzeHeadless.bat''])"
    by code_simp
  have d: "is_dir world_rerun
      [''E:'' @ [backslash], ''Games'', ''Dreamcast'', ''Samba2K_hack'', ''sdk'']"
    by code_simp
  have e: "full world_rerun
      [''E:'' @ [backslash], ''Games'', ''Dreamcast'', ''Samba2K_hack'', ''sdk''] = sdk_dir"
    by code_simp
  from script_unfold [OF c d] e
  have s: "script env_real world_rerun =
      build_fidb env_real ''dc_sdk_r11'' [''r11''] (world_rerun\<lparr>cwd := sdk_dir\<rparr>)"
    by simp
  from build_fidb_work_dir_exists [OF a b, of "[''r11'']"] s a b show ?thesis by auto
qed

theorem build_fidb_existing_work_dir_witness:
  "\<not> DEBUG env_real \<and>
   exists (world_rerun\<lparr>cwd := sdk_dir\<rparr>) (Path_of (''fid_work_'' @ ''dc_sdk_r11'')) \<and>
   (\<exists>w'. build_fidb env_real ''dc_sdk_r11'' [''r11''] (world_rerun\<lparr>cwd := sdk_dir\<rparr>)
            = (Inr (), w') \<and>
      fs w' = fs world_rerun \<and> procs w' = [])"
proof -
  have a: "\<not> DEBUG env_real" by code_simp
  have b: "exists (world_rerun\<lparr>cwd := sdk_dir\<rparr>) (Path_of (''fid_work_'' @ ''dc_sdk_r11''))"
    by code_simp
  have c: "procs world_rerun = []" by code_simp
  from build_fidb_existing_work_dir [OF a b, of "[''r11'']"] a b c show ?thesis by auto
qed

text \<open>
  Claim C1 fails on the code. Copy mode writes the file and returns 0: at a source
  \<^verbatim>\<open>c.o\<close> that is not yet in the destination the result is 0 and the copy is there;
  and the build of a tree whose only library file is \<^verbatim>\<open>foo.o\<close> copies it, ends the
  walk with \<^verbatim>\<open>copied = 0\<close> and leaves by \<^verbatim>\<open>exit(1)\<close> after the message that no
  file was copied. The walk of a dry run over the same tree ends with \<^verbatim>\<open>copied = 1\<close>.
\<close>

theorem copy_mode_counts_nothing:
  "\<not> exists world_tmp [drive, ''dst'', ''c.o''] \<and>
   fst (extract_or_copy env_real ''copy'' [drive, ''src'', ''c.o''] [drive, ''dst''] world_tmp)
     = Inr 0 \<and>
   node_at (snd (extract_or_copy env_real ''copy'' [drive, ''src'', ''c.o''] [drive, ''dst'']
                   world_tmp)) [drive, ''dst'', ''c.o''] = Some (File ''src c'' False) \<and>
   fst (build_fidb env_real ''x'' [''r11''] world_objects) = Inl (SystemExit 1) \<and>
   node_at (snd (build_fidb env_real ''x'' [''r11''] world_objects))
     [''fid_work_x'', ''gcc'', ''foo.o'', ''default'', ''r11'', ''foo.o'']
     = Some (File ''object code'' False) \<and>
   last (out (snd (build_fidb env_real ''x'' [''r11''] world_objects)))
     = ''No SDK files were copied. Check filters or paths.'' \<and>
   fst (walk env_dry (full world_objects [''r11'']) (Path_of (''fid_work_'' @ ''x''))
          (snd (prepare env_dry (full world_objects [''r11''])
                  (Path_of (''fid_work_'' @ ''x'')) world_objects))) = Inr (1, {''gcc''})"
proof -
  let ?sdk = "full world_objects [''r11'']" and ?proj = "Path_of (''fid_work_'' @ ''x'')"
  let ?ws = "snd (prepare env_real ?sdk ?proj world_objects)"
  let ?w1 = "snd (walk env_real ?sdk ?proj ?ws)"
  have 1: "\<not> exists world_tmp [drive, ''dst'', ''c.o'']" by code_simp
  have 2: "fst (extract_or_copy env_real ''copy'' [drive, ''src'', ''c.o''] [drive, ''dst'']
      world_tmp) = Inr 0" by code_simp
  have 3: "node_at (snd (extract_or_copy env_real ''copy'' [drive, ''src'', ''c.o'']
      [drive, ''dst''] world_tmp)) [drive, ''dst'', ''c.o''] = Some (File ''src c'' False)"
    by code_simp
  have "fst (prepare env_real ?sdk ?proj world_objects) = Inr True" by code_simp
  then have p: "prepare env_real ?sdk ?proj world_objects = (Inr True, ?ws)"
    by (simp add: prod_eq_iff)
  have "fst (walk env_real ?sdk ?proj ?ws) = Inr (0, {''gcc''})" by code_simp
  then have w: "walk env_real ?sdk ?proj ?ws = (Inr (0, {''gcc''}), ?w1)"
    by (simp add: prod_eq_iff)
  have n: "node_at ?w1 [''fid_work_x'', ''gcc'', ''foo.o'', ''default'', ''r11'', ''foo.o'']
      = Some (File ''object code'' False)" by code_simp
  from build_fidb_continue [OF p] build_tree_zero [OF w]
  have "build_fidb env_real ''x'' [''r11''] world_objects =
      (Inl (SystemExit 1),
       ?w1\<lparr>out := out ?w1 @ [''No SDK files were copied. Check filters or paths.'']\<rparr>)"
    by simp
  moreover have "fst (walk env_dry ?sdk ?proj (snd (prepare env_dry ?sdk ?proj world_objects)))
      = Inr (1, {''gcc''})" by code_simp
  ultimately show ?thesis using 1 2 3 n by simp
qed

section \<open>No call of the analysis tool before the end of the walk\<close>


lemma analysis_calls_upd [simp]:
  "analysis_calls (w\<lparr>out := x\<rparr>) = analysis_calls w"
  "analysis_calls (w\<lparr>fs := al\<rparr>) = analysis_calls w"
  "analysis_calls (w\<lparr>tools := z\<rparr>) = analysis_calls w"
  "analysis_calls (w\<lparr>cwd := d\<rparr>) = analysis_calls w"
  "analysis_calls (w\<lparr>procs := procs w @ [Run argv dir]\<rparr>) = analysis_calls w"
  by (simp_all add: analysis_calls_def)

lemma quietD: "quiet m \<Longrightarrow> m w = (r, w') \<Longrightarrow> analysis_calls w' = analysis_calls w"
  by (auto simp: quiet_def dest: spec [of _ w])

lemma quiet_basic [intro!, simp]:
  "quiet (ret x)" "quiet (raise e)" "quiet get" "quiet (lift f)" "quiet (print s)"
  by (simp_all add: quiet_def io_defs)

lemma quiet_bnd [intro!]:
  assumes "quiet m" and "\<And>x. quiet (f x)"
  shows "quiet (bnd m f)"
proof -
  have "analysis_calls (snd (bnd m f w)) = analysis_calls w" for w
  proof (cases "m w")
    case (Pair r w1)
    with assms(1) have 1: "analysis_calls w1 = analysis_calls w" by (rule quietD)
    show ?thesis
    proof (cases r)
      case (Inl e)
      with Pair 1 show ?thesis by (simp add: bnd_def)
    next
      case (Inr x)
      from assms(2) [of x] have "analysis_calls (snd (f x w1)) = analysis_calls w1"
        by (simp add: quiet_def)
      with Pair Inr 1 show ?thesis by (simp add: bnd_def)
    qed
  qed
  then show ?thesis by (simp add: quiet_def)
qed

lemma quiet_try_except [intro!]:
  assumes "quiet m" and "\<And>e. quiet (h e)"
  shows "quiet (try_except m h)"
proof -
  have "analysis_calls (snd (try_except m h w)) = analysis_calls w" for w
  proof (cases "m w")
    case (Pair r w1)
    with assms(1) have 1: "analysis_calls w1 = analysis_calls w" by (rule quietD)
    show ?thesis
    proof (cases r)
      case (Inl e)
      from assms(2) [of e] have "analysis_calls (snd (h e w1)) = analysis_calls w1"
        by (simp add: quiet_def)
      with Pair Inl 1 show ?thesis by (simp add: try_except_def)
    next
      case (Inr x)
      with Pair 1 show ?thesis by (simp add: try_except_def)
    qed
  qed
  then show ?thesis by (simp add: quiet_def)
qed

lemma quiet_for_each [intro!]:
  assumes "\<And>x. quiet (f x)"
  shows "quiet (for_each f xs)"
proof -
  have "analysis_calls (snd (for_each f xs w)) = analysis_calls w" for w
  proof (induction xs arbitrary: w)
    case Nil
    show ?case by simp
  next
    case (Cons x xs)
    obtain r w1 where s: "f x w = (r, w1)" by (cases "f x w")
    from quietD [OF assms s] have 1: "analysis_calls w1 = analysis_calls w" .
    with s Cons [of w1] show ?case by (cases r) simp_all
  qed
  then show ?thesis by (simp add: quiet_def)
qed

lemma quiet_fold_io [intro!]:
  assumes "\<And>x s. quiet (f x s)"
  shows "quiet (fold_io f xs s)"
proof -
  have "analysis_calls (snd (fold_io f xs s w)) = analysis_calls w" for w
  proof (induction xs arbitrary: s w)
    case Nil
    show ?case by simp
  next
    case (Cons x xs)
    obtain r w1 where st: "f x s w = (r, w1)" by (cases "f x s w")
    from quietD [OF assms st] have 1: "analysis_calls w1 = analysis_calls w" .
    with st Cons [of _ w1] show ?case by (cases r) simp_all
  qed
  then show ?thesis by (simp add: quiet_def)
qed

lemma quiet_if [intro!]: "(c \<Longrightarrow> quiet a) \<Longrightarrow> (\<not> c \<Longrightarrow> quiet b) \<Longrightarrow> quiet (if c then a else b)"
  by simp

lemma quiet_or_raise [intro!, simp]: "quiet (or_raise e x)"
  by (cases x) (simp_all add: or_raise_def)

lemma quiet_fs_ops [intro!, simp]:
  "quiet (copy2 src dst)" "quiet (remove p)" "quiet (chmod_644 p)" "quiet (rename p q)"
  "quiet (move src dst)" "quiet (mkdir p)" "quiet (mkdir_parents p)"
  "quiet (write_text p content)" "quiet (touch p)" "quiet (run env argv dir)"
  by (auto simp: quiet_def analysis_calls_def copy2_def remove_def chmod_644_def rename_def move_def mkdir_def
      mkdir_parents_def write_text_def touch_def run_def fs_put_def Let_def
      split: option.splits node.splits bool.splits sum.splits prod.splits)

lemma quiet_with_tmpdir [intro!]:
  assumes "\<And>d. quiet (body d)"
  shows "quiet (with_tmpdir env body)"
proof -
  have "analysis_calls (snd (with_tmpdir env body w)) = analysis_calls w" for w
  proof -
    let ?d = "mkdtemp env (fs w)"
    obtain r w1 where b: "body ?d (w\<lparr>fs := fs w @ [(?d, Dir)]\<rparr>) = (r, w1)"
      by (cases "body ?d (w\<lparr>fs := fs w @ [(?d, Dir)]\<rparr>)")
    from quietD [OF assms b] b show ?thesis by (simp add: with_tmpdir_def Let_def)
  qed
  then show ?thesis by (simp add: quiet_def)
qed

lemma quiet_move_tmp_files [intro!, simp]: "quiet (move_tmp_files tmpdir dst_dir)"
  unfolding move_tmp_files_def move_tmp_files_body_def Let_def by (intro quiet_bnd quiet_fold_io quiet_if quiet_basic quiet_fs_ops)

lemma quiet_unpack [intro!, simp]: "quiet (unpack env tool src tmpdir)"
  unfolding unpack_def by (intro quiet_bnd quiet_try_except quiet_if quiet_basic quiet_fs_ops)

lemma quiet_convert_obj [intro!, simp]: "quiet (convert_obj env tmpdir f)"
  unfolding convert_obj_def
  by (intro quiet_bnd quiet_try_except quiet_if quiet_basic quiet_fs_ops quiet_or_raise)

lemma quiet_fix_extracted [intro!, simp]: "quiet (fix_extracted f)"
  unfolding fix_extracted_def
  by (intro quiet_bnd quiet_try_except quiet_if quiet_basic quiet_fs_ops quiet_or_raise)

lemma quiet_extract_or_copy [intro!, simp]: "quiet (extract_or_copy env tool src dst_dir)"
  unfolding extract_or_copy_def Let_def
  by (intro quiet_bnd quiet_if quiet_basic quiet_fs_ops quiet_with_tmpdir quiet_for_each
      quiet_unpack quiet_convert_obj quiet_fix_extracted quiet_move_tmp_files)

lemma quiet_should_ignore [intro!, simp]: "quiet (should_ignore env p)"
  unfolding should_ignore_def
  by (cases "ignored_dir p") auto

lemma quiet_build_file [intro!, simp]: "quiet (build_file env sdk_root project_root file acc)"
proof (cases acc)
  case (Pair copied compilers)
  have "quiet (case found of
       None \<Rightarrow> a
     | Some compiler \<Rightarrow> b compiler)" if "quiet a" "\<And>c. quiet (b c)" for found :: "string option" and a :: "(nat \<times> string set) io" and b
    using that by (cases found) simp_all
  note opt = this
  show ?thesis
    unfolding build_file_def Pair prod.case Let_def
    by (intro quiet_bnd quiet_if quiet_basic quiet_fs_ops quiet_should_ignore
        quiet_extract_or_copy opt)
qed

lemma quiet_walk [intro!, simp]: "quiet (walk env sdk_root project_root)"
  unfolding walk_def by (intro quiet_bnd quiet_fold_io quiet_basic quiet_build_file)

lemma quiet_resolve_tool [intro!, simp]: "quiet (resolve_tool sdk_root tool)"
  by (auto simp: quiet_def resolve_tool_def Let_def split: option.splits)

lemma quiet_prepare [intro!, simp]: "quiet (prepare env sdk_root project_root)"
  unfolding prepare_def
  by (intro quiet_bnd quiet_if quiet_basic quiet_fs_ops quiet_for_each quiet_resolve_tool)


lemma build_fidb_zero:
  assumes p: "prepare env (full w sdk_root) (Path_of (''fid_work_'' @ fidb_name)) w = (Inr True, ws)"
    and wk: "walk env (full w sdk_root) (Path_of (''fid_work_'' @ fidb_name)) ws
               = (Inr (0, compilers), w1)"
  shows "build_fidb env fidb_name sdk_root w =
      (Inl (SystemExit 1),
       w1\<lparr>out := out w1 @ [''No SDK files were copied. Check filters or paths.'']\<rparr>)"
    and "analysis_calls w1 = analysis_calls w"
proof -
  from build_fidb_continue [OF p] build_tree_zero [OF wk]
  show "build_fidb env fidb_name sdk_root w =
      (Inl (SystemExit 1),
       w1\<lparr>out := out w1 @ [''No SDK files were copied. Check filters or paths.'']\<rparr>)"
    by simp
  from quietD [OF quiet_prepare p] quietD [OF quiet_walk wk]
  show "analysis_calls w1 = analysis_calls w" by simp
qed

text \<open>
  Claim C6. When the preparation lets the build go on and the walk ends with
  \<^verbatim>\<open>copied = 0\<close>, \<^verbatim>\<open>build_fidb\<close> prints that no file was copied and raises
  \<^verbatim>\<open>SystemExit(1)\<close>, the status of the process being 1, in the world the walk left:
  the analysis tool has not been called since \<^verbatim>\<open>build_fidb\<close> began.
\<close>

theorem zero_files_exit:
  assumes "prepare env (full w sdk_root) (Path_of (''fid_work_'' @ fidb_name)) w = (Inr True, ws)"
    and "walk env (full w sdk_root) (Path_of (''fid_work_'' @ fidb_name)) ws
           = (Inr (0, compilers), w1)"
  shows "build_fidb env fidb_name sdk_root w =
      (Inl (SystemExit 1),
       w1\<lparr>out := out w1 @ [''No SDK files were copied. Check filters or paths.'']\<rparr>) \<and>
    exit_status (fst (build_fidb env fidb_name sdk_root w)) = 1 \<and>
    analysis_calls (snd (build_fidb env fidb_name sdk_root w)) = analysis_calls w"
  using build_fidb_zero [OF assms] by simp

theorem zero_files_exit_witness:
  "fst (prepare env_real (full world_objects [''r11'']) (Path_of (''fid_work_'' @ ''x''))
          world_objects) = Inr True \<and>
   fst (walk env_real (full world_objects [''r11'']) (Path_of (''fid_work_'' @ ''x''))
          (snd (prepare env_real (full world_objects [''r11''])
                  (Path_of (''fid_work_'' @ ''x'')) world_objects))) = Inr (0, {''gcc''}) \<and>
   fst (build_fidb env_real ''x'' [''r11''] world_objects) = Inl (SystemExit 1) \<and>
   exit_status (fst (build_fidb env_real ''x'' [''r11''] world_objects)) = 1 \<and>
   analysis_calls (snd (build_fidb env_real ''x'' [''r11''] world_objects)) = []"
proof -
  let ?sdk = "full world_objects [''r11'']" and ?proj = "Path_of (''fid_work_'' @ ''x'')"
  let ?ws = "snd (prepare env_real ?sdk ?proj world_objects)"
  let ?w1 = "snd (walk env_real ?sdk ?proj ?ws)"
  have a: "fst (prepare env_real ?sdk ?proj world_objects) = Inr True" by code_simp
  then have p: "prepare env_real ?sdk ?proj world_objects = (Inr True, ?ws)"
    by (simp add: prod_eq_iff)
  have b: "fst (walk env_real ?sdk ?proj ?ws) = Inr (0, {''gcc''})" by code_simp
  then have w: "walk env_real ?sdk ?proj ?ws = (Inr (0, {''gcc''}), ?w1)"
    by (simp add: prod_eq_iff)
  have c: "analysis_calls world_objects = []" by code_simp
  note z = zero_files_exit [OF p w]
  from z have 1: "fst (build_fidb env_real ''x'' [''r11''] world_objects) = Inl (SystemExit 1)"
    by simp
  from z have 2: "exit_status (fst (build_fidb env_real ''x'' [''r11''] world_objects)) = 1"
    by blast
  from z have "analysis_calls (snd (build_fidb env_real ''x'' [''r11''] world_objects))
      = analysis_calls world_objects" by blast
  with c have 3: "analysis_calls (snd (build_fidb env_real ''x'' [''r11''] world_objects)) = []"
    by simp
  from a b 1 2 3 show ?thesis by blast
qed

section \<open>The properties file\<close>




lemma fs_put_sel [simp]:
  "cwd (fs_put k n w) = cwd w" "full (fs_put k n w) p = full w p"
  by (simp_all add: fs_put_def)










section \<open>The handling mode chosen by the walk\<close>


lemma mkdir_rev_keeps:
  "mkdir_rev r al = Inr al' \<Longrightarrow> map_of al k \<noteq> None \<Longrightarrow> map_of al' k = map_of al k"
proof (induction r arbitrary: al')
  case Nil
  then show ?case by simp
next
  case (Cons s r)
  then show ?case
    by (auto simp: map_add_def split: option.splits node.splits sum.splits)
qed

lemma mkdir_parents_keeps:
  assumes "mkdir_parents p w = (Inr (), w1)" and "node_at w k \<noteq> None"
  shows "node_at w1 k = node_at w k"
  using assms
  by (auto simp: mkdir_parents_def node_at_def mkdir_rev_keeps split: sum.splits)

lemma dst_dir_step_keeps:
  assumes "(if \<not> exists w d then bnd (print s) (\<lambda>_. mkdir_parents d) else ret ()) w
      = (Inr (), w1)"
    and "is_file w file"
  shows "open_rb w1 file = open_rb w file"
proof -
  from assms(2) have ne: "node_at w file \<noteq> None"
    by (auto simp: is_file_def split: option.splits)
  have "node_at w1 file = node_at w file"
  proof (cases "exists w d")
    case True
    with assms(1) show ?thesis by (simp add: ret_def)
  next
    case False
    with assms(1) have "mkdir_parents d (w\<lparr>out := out w @ [s]\<rparr>) = (Inr (), w1)"
      by (simp add: io_defs)
    from mkdir_parents_keeps [OF this, of "file"] ne show ?thesis by simp
  qed
  then show ?thesis by (simp add: open_rb_def)
qed

lemma is_ar_archive_open:
  "open_rb w1 p = open_rb w p \<Longrightarrow> is_ar_archive w1 p = is_ar_archive w p"
  by (simp add: is_ar_archive_def)

lemma choose_tool_cases:
  "is_ar_archive w file = Inr True \<Longrightarrow> choose_tool w file = Inr ''ar''"
  "is_ar_archive w file = Inr False \<Longrightarrow> lower (suffix_of file) = ''.lib'' \<Longrightarrow>
     choose_tool w file = Inr ''libsplit''"
  by (simp_all add: choose_tool_def)

lemma should_ignore_no:
  "lower (name p) \<notin> set IGNORE_FILES \<Longrightarrow> ignored_dir p = None \<Longrightarrow>
     should_ignore env p w = (Inr False, w)"
  by (simp add: should_ignore_def ret_def)

lemma build_file_tool:
  assumes f: "is_file w file" and x: "lower (suffix_of file) \<in> set VALID_EXTS"
    and i: "lower (name file) \<notin> set IGNORE_FILES" "ignored_dir file = None"
    and c: "detect_compiler w file = Inr (Some compiler)"
    and d: "dst_dir = child (child (child (child project_root compiler) (name file))
              (detect_variant file)) (name sdk_root)"
    and t: "choose_tool w file = Inr tool"
  shows "DEBUG env \<Longrightarrow>
      build_file env sdk_root project_root file (copied, compilers) w =
        (Inr (copied + 1, insert compiler compilers),
         w\<lparr>out := out w @ [''[INFO] '' @ tool @ '': '' @ path_str file @ [CHR 0x09] @ ''-> ''
                            @ path_str dst_dir]\<rparr>)"
    and "\<not> DEBUG env \<Longrightarrow>
      (if \<not> exists w dst_dir
       then bnd (print (''[MKDIR] '' @ path_str dst_dir)) (\<lambda>_. mkdir_parents dst_dir)
       else ret ()) w = (Inr (), w1) \<Longrightarrow>
      build_file env sdk_root project_root file (copied, compilers) w =
        bnd (extract_or_copy env tool file dst_dir)
          (\<lambda>n. ret (copied + n, insert compiler compilers)) w1"
proof -
  assume "DEBUG env"
  with f x c t should_ignore_no [OF i, of env w]
  show "build_file env sdk_root project_root file (copied, compilers) w =
        (Inr (copied + 1, insert compiler compilers),
         w\<lparr>out := out w @ [''[INFO] '' @ tool @ '': '' @ path_str file @ [CHR 0x09] @ ''-> ''
                            @ path_str dst_dir]\<rparr>)"
    by (simp add: build_file_def io_defs Let_def d)
next
  assume nd: "\<not> DEBUG env"
    and st: "(if \<not> exists w dst_dir
       then bnd (print (''[MKDIR] '' @ path_str dst_dir)) (\<lambda>_. mkdir_parents dst_dir)
       else ret ()) w = (Inr (), w1)"
  from dst_dir_step_keeps [OF st f] have "is_ar_archive w1 file = is_ar_archive w file"
    by (rule is_ar_archive_open)
  with t have t1: "choose_tool w1 file = Inr tool" by (simp add: choose_tool_def)
  from st have st': "(if \<not> exists w dst_dir
       then bnd (print (''[MKDIR] '' @ path_str dst_dir)) (\<lambda>_. mkdir_parents dst_dir)
       else ret ()) w = (Inr (), w1)" .
  show "build_file env sdk_root project_root file (copied, compilers) w =
        bnd (extract_or_copy env tool file dst_dir)
          (\<lambda>n. ret (copied + n, insert compiler compilers)) w1"
    using f x c nd t1 should_ignore_no [OF i, of env w] st' [unfolded d]
    by (simp add: build_file_def Let_def d bnd_def get_def lift_def ret_def)
qed


text \<open>
  Claim C5. Take a file that the walk of \<^verbatim>\<open>build_fidb\<close> processes: a regular file
  with an allowed extension, not ignored, with a toolchain. When \<^verbatim>\<open>is_ar_archive\<close>
  returns \<^verbatim>\<open>True\<close> for it, the mode is \<^verbatim>\<open>"ar"\<close>: a dry run prints the line
  \<^verbatim>\<open>[INFO] ar:\<close> and counts the file, and a real run, once the destination directory
  is there, is the call \<^verbatim>\<open>extract_or_copy("ar", file, dst_dir)\<close> whose result is added
  to \<^verbatim>\<open>copied\<close>. When it returns \<^verbatim>\<open>False\<close> and the suffix is \<^verbatim>\<open>.lib\<close>, the same
  holds with \<^verbatim>\<open>"libsplit"\<close>.
\<close>

theorem build_file_selects_archiver:
  assumes "is_file w file" and "lower (suffix_of file) \<in> set VALID_EXTS"
    and "lower (name file) \<notin> set IGNORE_FILES" and "ignored_dir file = None"
    and "detect_compiler w file = Inr (Some compiler)"
    and "dst_dir = child (child (child (child project_root compiler) (name file))
           (detect_variant file)) (name sdk_root)"
  shows
   "(is_ar_archive w file = Inr True \<longrightarrow>
      (DEBUG env \<longrightarrow>
         build_file env sdk_root project_root file (copied, compilers) w =
           (Inr (copied + 1, insert compiler compilers),
            w\<lparr>out := out w @ [''[INFO] ar: '' @ path_str file @ [CHR 0x09] @ ''-> ''
                               @ path_str dst_dir]\<rparr>)) \<and>
      (\<not> DEBUG env \<longrightarrow>
         (\<forall>w1. (if \<not> exists w dst_dir
                then bnd (print (''[MKDIR] '' @ path_str dst_dir)) (\<lambda>_. mkdir_parents dst_dir)
                else ret ()) w = (Inr (), w1) \<longrightarrow>
            build_file env sdk_root project_root file (copied, compilers) w =
              bnd (extract_or_copy env ''ar'' file dst_dir)
                (\<lambda>n. ret (copied + n, insert compiler compilers)) w1))) \<and>
    (is_ar_archive w file = Inr False \<and> lower (suffix_of file) = ''.lib'' \<longrightarrow>
      (DEBUG env \<longrightarrow>
         build_file env sdk_root project_root file (copied, compilers) w =
           (Inr (copied + 1, insert compiler compilers),
            w\<lparr>out := out w @ [''[INFO] libsplit: '' @ path_str file @ [CHR 0x09] @ ''-> ''
                               @ path_str dst_dir]\<rparr>)) \<and>
      (\<not> DEBUG env \<longrightarrow>
         (\<forall>w1. (if \<not> exists w dst_dir
                then bnd (print (''[MKDIR] '' @ path_str dst_dir)) (\<lambda>_. mkdir_parents dst_dir)
                else ret ()) w = (Inr (), w1) \<longrightarrow>
            build_file env sdk_root project_root file (copied, compilers) w =
              bnd (extract_or_copy env ''libsplit'' file dst_dir)
                (\<lambda>n. ret (copied + n, insert compiler compilers)) w1)))"
proof (intro conjI impI allI)
  assume a: "is_ar_archive w file = Inr True"
  note t = choose_tool_cases(1) [OF a]
  {
    assume "DEBUG env"
    from build_file_tool(1) [OF assms t this]
    show "build_file env sdk_root project_root file (copied, compilers) w =
           (Inr (copied + 1, insert compiler compilers),
            w\<lparr>out := out w @ [''[INFO] ar: '' @ path_str file @ [CHR 0x09] @ ''-> ''
                               @ path_str dst_dir]\<rparr>)"
      by simp
  next
    fix w1
    assume "\<not> DEBUG env"
      and "(if \<not> exists w dst_dir
                then bnd (print (''[MKDIR] '' @ path_str dst_dir)) (\<lambda>_. mkdir_parents dst_dir)
                else ret ()) w = (Inr (), w1)"
    from build_file_tool(2) [OF assms t this]
    show "build_file env sdk_root project_root file (copied, compilers) w =
              bnd (extract_or_copy env ''ar'' file dst_dir)
                (\<lambda>n. ret (copied + n, insert compiler compilers)) w1" .
  }
next
  assume "is_ar_archive w file = Inr False \<and> lower (suffix_of file) = ''.lib''"
  then have t: "choose_tool w file = Inr ''libsplit''" by (simp add: choose_tool_cases(2))
  {
    assume "DEBUG env"
    from build_file_tool(1) [OF assms t this]
    show "build_file env sdk_root project_root file (copied, compilers) w =
           (Inr (copied + 1, insert compiler compilers),
            w\<lparr>out := out w @ [''[INFO] libsplit: '' @ path_str file @ [CHR 0x09] @ ''-> ''
                               @ path_str dst_dir]\<rparr>)"
      by simp
  next
    fix w1
    assume "\<not> DEBUG env"
      and "(if \<not> exists w dst_dir
                then bnd (print (''[MKDIR] '' @ path_str dst_dir)) (\<lambda>_. mkdir_parents dst_dir)
                else ret ()) w = (Inr (), w1)"
    from build_file_tool(2) [OF assms t this]
    show "build_file env sdk_root project_root file (copied, compilers) w =
              bnd (extract_or_copy env ''libsplit'' file dst_dir)
                (\<lambda>n. ret (copied + n, insert compiler compilers)) w1" .
  }
qed


lemma snd_bnd_ret: "snd (bnd m (\<lambda>n. ret (g n)) w) = snd (m w)"
proof (cases "m w")
  case (Pair r w')
  then show ?thesis by (cases r) (simp_all add: bnd_def ret_def)
qed

theorem build_file_selects_archiver_witness:
  "is_file world_ar [drive, ''sdk'', ''real.lib''] \<and>
   detect_compiler world_ar [drive, ''sdk'', ''real.lib''] = Inr (Some ''gcc'') \<and>
   is_ar_archive world_ar [drive, ''sdk'', ''real.lib''] = Inr True \<and>
   build_file env_dry [drive, ''sdk''] [''fid_work_x''] [drive, ''sdk'', ''real.lib'']
       (0, {}) world_ar =
     (Inr (0 + 1, insert ''gcc'' {}),
      world_ar\<lparr>out := out world_ar @ [''[INFO] ar: '' @ path_str [drive, ''sdk'', ''real.lib'']
        @ [CHR 0x09] @ ''-> ''
        @ path_str [''fid_work_x'', ''gcc'', ''real.lib'', ''default'', ''sdk'']]\<rparr>) \<and>
   procs (snd (build_file env_real [drive, ''sdk''] [''fid_work_x'']
                 [drive, ''sdk'', ''real.lib''] (0, {}) world_ar)) =
     [Run [path_str [drive, ''ar.exe''], ''xo'', ''real.lib''] [drive, ''tmp0'']] \<and>
   is_ar_archive world_ar [drive, ''sdk'', ''hitachi.lib''] = Inr False \<and>
   lower (suffix_of [drive, ''sdk'', ''hitachi.lib'']) = ''.lib'' \<and>
   build_file env_dry [drive, ''sdk''] [''fid_work_x''] [drive, ''sdk'', ''hitachi.lib'']
       (0, {}) world_ar =
     (Inr (0 + 1, insert ''shc'' {}),
      world_ar\<lparr>out := out world_ar @ [''[INFO] libsplit: ''
        @ path_str [drive, ''sdk'', ''hitachi.lib''] @ [CHR 0x09] @ ''-> ''
        @ path_str [''fid_work_x'', ''shc'', ''hitachi.lib'', ''default'', ''sdk'']]\<rparr>)"
proof -
  let ?sdk = "[drive, ''sdk'']" and ?proj = "[''fid_work_x'']"
  let ?r = "[drive, ''sdk'', ''real.lib'']" and ?h = "[drive, ''sdk'', ''hitachi.lib'']"
  let ?dr = "[''fid_work_x'', ''gcc'', ''real.lib'', ''default'', ''sdk'']"
  let ?dh = "[''fid_work_x'', ''shc'', ''hitachi.lib'', ''default'', ''sdk'']"
  let ?step = "(if \<not> exists world_ar ?dr
                then bnd (print (''[MKDIR] '' @ path_str ?dr)) (\<lambda>_. mkdir_parents ?dr)
                else ret ())"
  have r1: "is_file world_ar ?r" by code_simp
  have r2: "lower (suffix_of ?r) \<in> set VALID_EXTS" by code_simp
  have r3: "lower (name ?r) \<notin> set IGNORE_FILES" by code_simp
  have r4: "ignored_dir ?r = None" by code_simp
  have r5: "detect_compiler world_ar ?r = Inr (Some ''gcc'')" by code_simp
  have r6: "?dr = child (child (child (child ?proj ''gcc'') (name ?r)) (detect_variant ?r))
      (name ?sdk)" by code_simp
  have ra: "is_ar_archive world_ar ?r = Inr True" by code_simp
  have h1: "is_file world_ar ?h" by code_simp
  have h2: "lower (suffix_of ?h) \<in> set VALID_EXTS" by code_simp
  have h3: "lower (name ?h) \<notin> set IGNORE_FILES" by code_simp
  have h4: "ignored_dir ?h = None" by code_simp
  have h5: "detect_compiler world_ar ?h = Inr (Some ''shc'')" by code_simp
  have h6: "?dh = child (child (child (child ?proj ''shc'') (name ?h)) (detect_variant ?h))
      (name ?sdk)" by code_simp
  have ha: "is_ar_archive world_ar ?h = Inr False" by code_simp
  have hl: "lower (suffix_of ?h) = ''.lib''" by code_simp
  have dry: "DEBUG env_dry" by code_simp
  have real: "\<not> DEBUG env_real" by code_simp
  have "fst (?step world_ar) = Inr ()" by code_simp
  then have st: "?step world_ar = (Inr (), snd (?step world_ar))"
    by (simp add: prod_eq_iff)
  note R = build_file_selects_archiver [OF r1 r2 r3 r4 r5 r6]
  note H = build_file_selects_archiver [OF h1 h2 h3 h4 h5 h6]
  from R [of env_dry 0 "{}"] ra dry have 1:
    "build_file env_dry ?sdk ?proj ?r (0, {}) world_ar =
     (Inr (0 + 1, insert ''gcc'' {}),
      world_ar\<lparr>out := out world_ar @ [''[INFO] ar: '' @ path_str ?r @ [CHR 0x09] @ ''-> ''
        @ path_str ?dr]\<rparr>)"
    by blast
  from H [of env_dry 0 "{}"] ha hl dry have 2:
    "build_file env_dry ?sdk ?proj ?h (0, {}) world_ar =
     (Inr (0 + 1, insert ''shc'' {}),
      world_ar\<lparr>out := out world_ar @ [''[INFO] libsplit: '' @ path_str ?h @ [CHR 0x09]
        @ ''-> '' @ path_str ?dh]\<rparr>)"
    by blast
  from R [of env_real 0 "{}"] ra real st have 3:
    "build_file env_real ?sdk ?proj ?r (0, {}) world_ar =
       bnd (extract_or_copy env_real ''ar'' ?r ?dr) (\<lambda>n. ret (0 + n, insert ''gcc'' {}))
         (snd (?step world_ar))"
    by blast
  have "procs (snd (extract_or_copy env_real ''ar'' ?r ?dr (snd (?step world_ar)))) =
      [Run [path_str [drive, ''ar.exe''], ''xo'', ''real.lib''] [drive, ''tmp0'']]"
    by code_simp
  then have 4: "procs (snd (bnd (extract_or_copy env_real ''ar'' ?r ?dr)
        (\<lambda>n. ret (0 + n, insert ''gcc'' {})) (snd (?step world_ar)))) =
      [Run [path_str [drive, ''ar.exe''], ''xo'', ''real.lib''] [drive, ''tmp0'']]"
    by (simp only: snd_bnd_ret)
  from 3 4 have 5: "procs (snd (build_file env_real ?sdk ?proj ?r (0, {}) world_ar)) =
      [Run [path_str [drive, ''ar.exe''], ''xo'', ''real.lib''] [drive, ''tmp0'']]"
    by simp
  from r1 r5 ra 1 5 ha hl 2 show ?thesis by blast
qed

end
